theory Spec2Isabelle
  imports Complex_Main "HOL-Library.Sublist" "HOL-Library.Log_Nat"
begin

section \<open>JavaScript numbers\<close>

text \<open>
  The request handler of the server computes with JavaScript numbers (IEEE 754 binary64).
  A number is modelled by its mathematical value, a rational, or one of the three
  special values. Every operation rounds its exact result to the nearest binary64
  (ties to even), as the language does. The sign of zero is not modelled: the handler
  clamps every parsed value from below with a bound that is +0 or larger, and
  \<open>Math.max(-0, 0)\<close> is +0, so no negative zero survives the clamp.
\<close>

datatype jsnum = Fin rat | NaN | PInf | NInf

fun isFinite :: "jsnum \<Rightarrow> bool" where
  "isFinite (Fin _) = True"
| "isFinite _ = False"

definition pow2 :: "int \<Rightarrow> rat" where
  "pow2 e = (if 0 \<le> e then 2 ^ nat e else 1 / 2 ^ nat (- e))"

definition pow10 :: "int \<Rightarrow> rat" where
  "pow10 e = (if 0 \<le> e then 10 ^ nat e else 1 / 10 ^ nat (- e))"

text \<open>The binary exponent of a positive rational: the largest \<open>e\<close> with \<open>2^e \<le> a\<close>.\<close>

definition ilog2 :: "rat \<Rightarrow> int" where
  "ilog2 a = (case quotient_of a of (p, q) \<Rightarrow>
     (let e0 = bitlen p - bitlen q in if pow2 e0 \<le> a then e0 else e0 - 1))"

definition roundTiesToEven :: "rat \<Rightarrow> int" where
  "roundTiesToEven q =
     (let n = \<lfloor>q\<rfloor>; f = q - of_int n
      in if f < 1 / 2 then n else if 1 / 2 < f then n + 1 else if even n then n else n + 1)"

text \<open>
  Rounding to binary64: 53 significant bits, least exponent -1022 (below it the spacing
  stays \<open>2^-1074\<close>), overflow to an infinity from \<open>2^1024\<close> on.
\<close>

definition round64 :: "rat \<Rightarrow> jsnum" where
  "round64 v =
     (if v = 0 then Fin 0
      else let a = \<bar>v\<bar>;
               e = max (ilog2 a) (- 1022);
               u = pow2 (e - 52);
               r = of_int (roundTiesToEven (a / u)) * u
           in if pow2 1024 \<le> r then (if 0 < v then PInf else NInf)
              else Fin (if 0 < v then r else - r))"

fun js_neg :: "jsnum \<Rightarrow> jsnum" where
  "js_neg (Fin a) = Fin (- a)"
| "js_neg NaN = NaN"
| "js_neg PInf = NInf"
| "js_neg NInf = PInf"

fun js_add :: "jsnum \<Rightarrow> jsnum \<Rightarrow> jsnum" where
  "js_add (Fin a) (Fin b) = round64 (a + b)"
| "js_add NaN _ = NaN"
| "js_add _ NaN = NaN"
| "js_add PInf NInf = NaN"
| "js_add NInf PInf = NaN"
| "js_add PInf _ = PInf"
| "js_add _ PInf = PInf"
| "js_add NInf _ = NInf"
| "js_add _ NInf = NInf"

definition js_sub :: "jsnum \<Rightarrow> jsnum \<Rightarrow> jsnum" where
  "js_sub a b = js_add a (js_neg b)"

text \<open>Division; a zero divisor counts as +0.\<close>

fun js_div :: "jsnum \<Rightarrow> jsnum \<Rightarrow> jsnum" where
  "js_div (Fin a) (Fin b) =
     (if b = 0 then (if a = 0 then NaN else if 0 < a then PInf else NInf)
      else round64 (a / b))"
| "js_div NaN _ = NaN"
| "js_div _ NaN = NaN"
| "js_div (Fin _) _ = Fin 0"
| "js_div PInf (Fin b) = (if 0 \<le> b then PInf else NInf)"
| "js_div NInf (Fin b) = (if 0 \<le> b then NInf else PInf)"
| "js_div _ _ = NaN"

fun js_lt :: "jsnum \<Rightarrow> jsnum \<Rightarrow> bool" where
  "js_lt NaN _ = False"
| "js_lt _ NaN = False"
| "js_lt (Fin a) (Fin b) = (a < b)"
| "js_lt NInf NInf = False"
| "js_lt NInf _ = True"
| "js_lt _ NInf = False"
| "js_lt PInf _ = False"
| "js_lt _ PInf = True"

text \<open>Strict equality \<open>===\<close> on numbers: \<open>NaN\<close> equals nothing.\<close>

definition js_eq :: "jsnum \<Rightarrow> jsnum \<Rightarrow> bool" where
  "js_eq a b = (a \<noteq> NaN \<and> a = b)"

definition js_le :: "jsnum \<Rightarrow> jsnum \<Rightarrow> bool" where
  "js_le a b = (js_lt a b \<or> js_eq a b)"

definition js_ge :: "jsnum \<Rightarrow> jsnum \<Rightarrow> bool" where
  "js_ge a b = js_le b a"

definition Math_max :: "jsnum \<Rightarrow> jsnum \<Rightarrow> jsnum" where
  "Math_max a b = (if a = NaN \<or> b = NaN then NaN else if js_lt a b then b else a)"

definition Math_min :: "jsnum \<Rightarrow> jsnum \<Rightarrow> jsnum" where
  "Math_min a b = (if a = NaN \<or> b = NaN then NaN else if js_lt b a then b else a)"

text \<open>\<open>Math.round\<close>: the integer nearest to the argument, a tie going up.\<close>

fun Math_round :: "jsnum \<Rightarrow> jsnum" where
  "Math_round (Fin a) = Fin (of_int \<lfloor>a + 1 / 2\<rfloor>)"
| "Math_round x = x"

section \<open>Strings to numbers\<close>

text \<open>
  A string is a list of characters, a character being a code unit below 256 (Latin-1).
  \<open>Number(s)\<close> of a string strips white space at both ends, reads the empty string
  as 0, and otherwise accepts exactly a signed decimal literal, \<open>Infinity\<close>, or an
  unsigned hexadecimal, octal or binary literal; everything else is \<open>NaN\<close>.
  \<open>parseFloat\<close> reads the longest leading decimal literal. The white space of the
  language below 256 is TAB, LF, VT, FF, CR, the space and the no-break space U+00A0;
  its other spaces are code units from 256 on, which this type of strings does not hold.
\<close>

definition isWhiteSpace :: "char \<Rightarrow> bool" where
  "isWhiteSpace c =
     (c \<in> set [CHR 0x09, CHR 0x0A, CHR 0x0B, CHR 0x0C, CHR 0x0D, CHR 0x20, CHR 0xA0])"

definition trim :: "string \<Rightarrow> string" where
  "trim s = rev (dropWhile isWhiteSpace (rev (dropWhile isWhiteSpace s)))"

definition isDigit :: "char \<Rightarrow> bool" where
  "isDigit c = (c \<in> set ''0123456789'')"

definition isHexDigit :: "char \<Rightarrow> bool" where
  "isHexDigit c = (c \<in> set ''0123456789abcdefABCDEF'')"

definition digitVal :: "char \<Rightarrow> nat" where
  "digitVal c =
     (if isDigit c then of_char c - 48
      else if c \<in> set ''abcdef'' then of_char c - 87
      else of_char c - 55)"

definition digitsToNat :: "nat \<Rightarrow> string \<Rightarrow> nat" where
  "digitsToNat base ds = foldl (\<lambda>acc c. acc * base + digitVal c) 0 ds"

text \<open>
  The exponent part \<open>e\<close>, optional sign, digits. It is read only when complete;
  otherwise nothing is consumed.
\<close>

definition scanExponent :: "string \<Rightarrow> int \<times> string" where
  "scanExponent s =
     (case s of
        [] \<Rightarrow> (0, s)
      | c # r \<Rightarrow>
          if c = CHR ''e'' \<or> c = CHR ''E'' then
            (let sg = (if r \<noteq> [] \<and> hd r = CHR ''-'' then - 1 else 1 :: int);
                 r1 = (if r \<noteq> [] \<and> (hd r = CHR ''-'' \<or> hd r = CHR ''+'') then tl r else r);
                 ds = takeWhile isDigit r1
             in if ds = [] then (0, s)
                else (sg * int (digitsToNat 10 ds), dropWhile isDigit r1))
          else (0, s))"

definition scanUnsigned :: "string \<Rightarrow> (jsnum \<times> string) option" where
  "scanUnsigned s =
     (if prefix ''Infinity'' s then Some (PInf, drop 8 s)
      else let ip = takeWhile isDigit s;
               r1 = dropWhile isDigit s;
               hasDot = (r1 \<noteq> [] \<and> hd r1 = CHR ''.'');
               fp = (if hasDot then takeWhile isDigit (tl r1) else []);
               r2 = (if hasDot then dropWhile isDigit (tl r1) else r1)
           in if ip = [] \<and> fp = [] then None
              else (case scanExponent r2 of (e, r3) \<Rightarrow>
                Some (round64 (of_nat (digitsToNat 10 (ip @ fp)) * pow10 (e - int (length fp))),
                      r3)))"

definition scanSigned :: "string \<Rightarrow> (jsnum \<times> string) option" where
  "scanSigned s =
     (case s of
        [] \<Rightarrow> None
      | c # r \<Rightarrow>
          if c = CHR ''+'' then scanUnsigned r
          else if c = CHR ''-'' then map_option (\<lambda>(v, rest). (js_neg v, rest)) (scanUnsigned r)
          else scanUnsigned s)"

definition radixLiteral :: "nat \<Rightarrow> (char \<Rightarrow> bool) \<Rightarrow> string \<Rightarrow> jsnum" where
  "radixLiteral base ok ds =
     (if ds \<noteq> [] \<and> list_all ok ds then round64 (of_nat (digitsToNat base ds)) else NaN)"

definition StringToNumber :: "string \<Rightarrow> jsnum" where
  "StringToNumber s =
     (let t = trim s
      in if t = [] then Fin 0
         else if prefix ''0x'' t \<or> prefix ''0X'' t then radixLiteral 16 isHexDigit (drop 2 t)
         else if prefix ''0o'' t \<or> prefix ''0O'' t
           then radixLiteral 8 (\<lambda>c. c \<in> set ''01234567'') (drop 2 t)
         else if prefix ''0b'' t \<or> prefix ''0B'' t
           then radixLiteral 2 (\<lambda>c. c \<in> set ''01'') (drop 2 t)
         else (case scanSigned t of
                 Some (v, rest) \<Rightarrow> if rest = [] then v else NaN
               | None \<Rightarrow> NaN))"

text \<open>\<open>Number(value)\<close> of a form field: an absent field is \<open>undefined\<close>, which is \<open>NaN\<close>.\<close>

definition Number_js :: "string option \<Rightarrow> jsnum" where
  "Number_js value = (case value of None \<Rightarrow> NaN | Some s \<Rightarrow> StringToNumber s)"

definition parseFloat :: "string \<Rightarrow> jsnum" where
  "parseFloat s =
     (case scanSigned (dropWhile isWhiteSpace s) of
        Some (v, _) \<Rightarrow> v
      | None \<Rightarrow> NaN)"

section \<open>Parameter resolution\<close>

text \<open>\<open>num\<close>: clamp and parse a numeric field; the default when the number is not finite.\<close>

definition num :: "string option \<Rightarrow> jsnum \<Rightarrow> jsnum \<Rightarrow> jsnum \<Rightarrow> jsnum" where
  "num value def mn mx =
     (let v = Number_js value
      in if \<not> isFinite v then def else Math_min (Math_max v mn) mx)"

text \<open>\<open>bandLabel\<close>: the label for the file name, from the average beat.\<close>

definition bandLabel :: "jsnum \<Rightarrow> string" where
  "bandLabel beatHz =
     (if js_ge beatHz (Fin 12) \<and> js_le beatHz (Fin 20) then ''Beta''
      else if js_ge beatHz (Fin 8) \<and> js_lt beatHz (Fin 12) then ''Alpha''
      else if js_ge beatHz (Fin 4) \<and> js_lt beatHz (Fin 8) then ''Theta''
      else if js_lt beatHz (Fin 4) then ''Delta''
      else ''Custom'')"

section \<open>Numbers to strings\<close>

definition digitChar :: "nat \<Rightarrow> char" where
  "digitChar d = ''0123456789'' ! (d mod 10)"

fun natToString :: "nat \<Rightarrow> string" where
  "natToString n =
     (if n < 10 then [digitChar n] else natToString (n div 10) @ [digitChar (n mod 10)])"

declare natToString.simps [simp del]

definition intToString :: "int \<Rightarrow> string" where
  "intToString i = (if i < 0 then ''-'' @ natToString (nat (- i)) else natToString (nat i))"

text \<open>
  \<open>String(x)\<close> and \<open>${x}\<close> of a number. An integer below \<open>2^53\<close> in absolute value
  prints as its decimal digits. Any other finite number prints as the shortest decimal
  that reads back as the same binary64; that digit generation is the parameter \<open>fmt\<close>.
\<close>

definition numToString :: "(rat \<Rightarrow> string) \<Rightarrow> jsnum \<Rightarrow> string" where
  "numToString fmt x =
     (case x of
        NaN \<Rightarrow> ''NaN''
      | PInf \<Rightarrow> ''Infinity''
      | NInf \<Rightarrow> ''-Infinity''
      | Fin r \<Rightarrow> if of_int \<lfloor>r\<rfloor> = r \<and> \<bar>r\<bar> < 2 ^ 53 then intToString \<lfloor>r\<rfloor> else fmt r)"

text \<open>
  \<open>x.toFixed(2)\<close>: the integer \<open>n\<close> with \<open>n / 100\<close> nearest to \<open>x\<close> (the larger one at
  a tie), printed with two decimals; from \<open>10^21\<close> on, and for the special values, the
  same as \<open>String(x)\<close>.
\<close>

definition toFixed2 :: "(rat \<Rightarrow> string) \<Rightarrow> jsnum \<Rightarrow> string" where
  "toFixed2 fmt x =
     (case x of
        Fin r \<Rightarrow>
          if 10 ^ 21 \<le> \<bar>r\<bar> then numToString fmt x
          else (let n = nat \<lfloor>\<bar>r\<bar> * 100 + 1 / 2\<rfloor>;
                    s = natToString (n div 100) @ ''.''
                        @ [digitChar (n mod 100 div 10), digitChar (n mod 10)]
                in if r < 0 then ''-'' @ s else s)
      | _ \<Rightarrow> numToString fmt x)"

section \<open>The request and its resolution\<close>

record upload =
  path :: string

record request =
  req_body :: "string \<Rightarrow> string option"
  req_file :: "upload option"

definition hasMusic :: "request \<Rightarrow> bool" where
  "hasMusic req = (req_file req \<noteq> None)"

record inputs =
  carrier :: jsnum
  beatStart :: jsnum
  beatEnd :: jsnum
  toneGain :: jsnum
  musicGain :: jsnum
  fadeSec :: jsnum

text \<open>The literals \<open>0.25\<close> and \<open>0.35\<close> are the binary64 nearest to them.\<close>

definition parseInputs :: "request \<Rightarrow> inputs" where
  "parseInputs req =
     \<lparr> carrier = num (req_body req ''carrier'') (Fin 420) (Fin 100) (Fin 1000),
       beatStart = num (req_body req ''beatStart'') (Fin 12) (Fin 0) (Fin 40),
       beatEnd = num (req_body req ''beatEnd'') (Fin 14) (Fin 0) (Fin 40),
       toneGain = num (req_body req ''toneGain'') (round64 (25 / 100)) (Fin 0) (Fin 1),
       musicGain = num (req_body req ''musicGain'') (round64 (35 / 100)) (Fin 0) (Fin 1),
       fadeSec = num (req_body req ''fadeSec'') (Fin 3) (Fin 0) (Fin 10) \<rparr>"

text \<open>
  One run of the probe executable on a file: either the process reports an error, or it
  closes with an exit code (none when a signal ended it), its output and its error text.
\<close>

datatype probe_run = ProbeError string | ProbeClose "int option" string string

text \<open>\<open>probeDurationSec\<close>: \<open>Inl\<close> is the rejected promise, \<open>Inr\<close> the resolved one.\<close>

definition probeDurationSec :: "(string \<Rightarrow> probe_run) \<Rightarrow> string \<Rightarrow> string + jsnum" where
  "probeDurationSec ffprobe filePath =
     (case ffprobe filePath of
        ProbeError e \<Rightarrow> Inl e
      | ProbeClose code out err \<Rightarrow>
          if code \<noteq> Some 0 then Inl (if err \<noteq> [] then err else ''ffprobe failed'')
          else (let sec = parseFloat (trim out)
                in if \<not> isFinite sec then Inl ''No duration'' else Inr sec))"

text \<open>
  The duration: the field, parsed with default \<open>NaN\<close>; when that is not finite and music
  was uploaded, the probed length; when still not finite, 1800.
\<close>

definition resolveDuration :: "(string \<Rightarrow> probe_run) \<Rightarrow> request \<Rightarrow> jsnum" where
  "resolveDuration ffprobe req =
     (let durationSec = num (req_body req ''durationSec'') NaN (Fin 60) (Fin 7200);
          durationSec =
            (case req_file req of
               Some f \<Rightarrow>
                 if \<not> isFinite durationSec then
                   (case probeDurationSec ffprobe (path f) of
                      Inr probed \<Rightarrow> Math_min (Math_max (Math_round probed) (Fin 60)) (Fin 7200)
                    | Inl _ \<Rightarrow> Fin 1800)
                 else durationSec
             | None \<Rightarrow> durationSec)
      in if \<not> isFinite durationSec then Fin 1800 else durationSec)"

section \<open>The signal graph\<close>

text \<open>
  The handler's locals, each as a function of the resolved inputs \<open>inp\<close> and the
  resolved duration \<open>dur\<close>. The sample rate \<open>sr\<close> is fixed.
\<close>

definition sr :: jsnum where
  "sr = Fin 48000"

text \<open>\<open>k\<close>, the slope of the linear ramp in Hz per second.\<close>

definition k_slope :: "inputs \<Rightarrow> jsnum \<Rightarrow> jsnum" where
  "k_slope inp dur = js_div (js_sub (beatEnd inp) (beatStart inp)) dur"

definition leftExpr :: "(rat \<Rightarrow> string) \<Rightarrow> inputs \<Rightarrow> string" where
  "leftExpr fmt inp =
     numToString fmt (toneGain inp) @ ''*sin(2*PI*'' @ numToString fmt (carrier inp) @ ''*t)''"

definition rightExpr :: "(rat \<Rightarrow> string) \<Rightarrow> inputs \<Rightarrow> jsnum \<Rightarrow> string" where
  "rightExpr fmt inp dur =
     numToString fmt (toneGain inp) @ ''*sin(2*PI*((''
       @ numToString fmt (carrier inp) @ ''+'' @ numToString fmt (beatStart inp)
       @ '')*t + 0.5*'' @ numToString fmt (k_slope inp dur) @ ''*t*t))''"

definition toneGen :: "(rat \<Rightarrow> string) \<Rightarrow> inputs \<Rightarrow> jsnum \<Rightarrow> string" where
  "toneGen fmt inp dur =
     ''aevalsrc=exprs='' @ leftExpr fmt inp @ [CHR 0x5C] @ ''|'' @ rightExpr fmt inp dur
       @ '':s='' @ numToString fmt sr @ '':d='' @ numToString fmt dur"

definition join :: "string \<Rightarrow> string list \<Rightarrow> string" where
  "join sep xs = (case xs of [] \<Rightarrow> [] | x # r \<Rightarrow> x @ concat (map (\<lambda>y. sep @ y) r))"

definition toneFilters :: "(rat \<Rightarrow> string) \<Rightarrow> inputs \<Rightarrow> jsnum \<Rightarrow> string" where
  "toneFilters fmt inp dur =
     join '','' [
       ''asetpts=N/SR/TB'',
       ''afade=t=in:st=0:d='' @ numToString fmt (fadeSec inp),
       ''afade=t=out:st='' @ numToString fmt (Math_max (Fin 0) (js_sub dur (fadeSec inp)))
         @ '':d='' @ numToString fmt (fadeSec inp)]"

definition musicFilters :: "(rat \<Rightarrow> string) \<Rightarrow> inputs \<Rightarrow> jsnum \<Rightarrow> string" where
  "musicFilters fmt inp dur =
     join '','' [
       ''aresample='' @ numToString fmt sr @ '':ocl=stereo'',
       ''asetpts=N/SR/TB'',
       ''atrim=0:'' @ numToString fmt dur,
       ''volume='' @ numToString fmt (musicGain inp)]"

text \<open>
  The filter graph. With music, input 0 is the music and input 1 the tones; without,
  input 0 is the tones.
\<close>

definition filterComplex :: "(rat \<Rightarrow> string) \<Rightarrow> bool \<Rightarrow> inputs \<Rightarrow> jsnum \<Rightarrow> string" where
  "filterComplex fmt music inp dur =
     (if music then
        ''[0:a]'' @ musicFilters fmt inp dur @ ''[m];''
        @ ''[1:a]'' @ toneFilters fmt inp dur @ ''[t];''
        @ ''[m][t]amix=inputs=2:normalize=0:dropout_transition=0[mix];''
        @ ''[mix]alimiter=limit=0.95[out]''
      else
        ''[0:a]'' @ toneFilters fmt inp dur @ ''[t];''
        @ ''[t]alimiter=limit=0.95[out]'')"

definition ffmpegArgs :: "(rat \<Rightarrow> string) \<Rightarrow> upload option \<Rightarrow> inputs \<Rightarrow> jsnum \<Rightarrow> string list" where
  "ffmpegArgs fmt f inp dur =
     [''-hide_banner'', ''-loglevel'', ''error'']
     @ (case f of Some u \<Rightarrow> [''-stream_loop'', ''-1'', ''-i'', path u] | None \<Rightarrow> [])
     @ [''-f'', ''lavfi'', ''-i'', toneGen fmt inp dur]
     @ [''-filter_complex'', filterComplex fmt (f \<noteq> None) inp dur]
     @ [''-map'', ''[out]'']
     @ [''-ar'', numToString fmt sr, ''-ac'', ''2'', ''-c:a'', ''pcm_s24le'']
     @ [''-f'', ''wav'', ''pipe:1'']"

section \<open>File name and headers\<close>

definition avgBeat :: "inputs \<Rightarrow> jsnum" where
  "avgBeat inp = js_div (js_add (beatStart inp) (beatEnd inp)) (Fin 2)"

definition label :: "inputs \<Rightarrow> string" where
  "label inp = bandLabel (avgBeat inp)"

definition prettyBeat :: "(rat \<Rightarrow> string) \<Rightarrow> inputs \<Rightarrow> string" where
  "prettyBeat fmt inp =
     (if js_eq (beatStart inp) (beatEnd inp) then toFixed2 fmt (beatEnd inp) @ ''Hz''
      else toFixed2 fmt (beatStart inp) @ ''-'' @ toFixed2 fmt (beatEnd inp) @ ''Hz'')"

text \<open>The characters the pattern \<open>[\w\-]\<close> matches.\<close>

definition isWordOrHyphen :: "char \<Rightarrow> bool" where
  "isWordOrHyphen c =
     (c \<in> set ''ABCDEFGHIJKLMNOPQRSTUVWXYZabcdefghijklmnopqrstuvwxyz0123456789_-'')"

text \<open>
  \<open>hint\<close>: the field when it is present and not empty, else the label; every run of
  other characters removed; the first 40 characters; the label again when nothing is left.
\<close>

definition hint :: "string option \<Rightarrow> string \<Rightarrow> string" where
  "hint filenameHint lbl =
     (let h0 = (case filenameHint of None \<Rightarrow> lbl | Some s \<Rightarrow> if s = [] then lbl else s);
          h1 = take 40 (filter isWordOrHyphen h0)
      in if h1 = [] then lbl else h1)"

definition replaceDots :: "string \<Rightarrow> string" where
  "replaceDots s = map (\<lambda>c. if c = CHR ''.'' then CHR ''p'' else c) s"

definition filename :: "(rat \<Rightarrow> string) \<Rightarrow> string \<Rightarrow> string option \<Rightarrow> inputs \<Rightarrow> jsnum \<Rightarrow> string" where
  "filename fmt uuid filenameHint inp dur =
     hint filenameHint (label inp) @ ''_'' @ replaceDots (prettyBeat fmt inp) @ ''_''
       @ numToString fmt (Math_round (js_div dur (Fin 60))) @ ''min_'' @ uuid @ ''.wav''"

definition metaHeaders :: "(rat \<Rightarrow> string) \<Rightarrow> inputs \<Rightarrow> jsnum \<Rightarrow> (string \<times> string) list" where
  "metaHeaders fmt inp dur =
     [(''X-Beat-Start-Hz'', numToString fmt (beatStart inp)),
      (''X-Beat-End-Hz'', numToString fmt (beatEnd inp)),
      (''X-Carrier-Hz'', numToString fmt (carrier inp)),
      (''X-Duration-Sec'', numToString fmt dur),
      (''X-Sample-Rate'', numToString fmt sr),
      (''X-Bit-Depth'', ''24''),
      (''X-Session-Label'', label inp)]"

definition contentDisposition :: "string \<Rightarrow> string" where
  "contentDisposition fname = ''attachment; filename='' @ [CHR 0x22] @ fname @ [CHR 0x22]"

section \<open>The handler up to the start of the renderer\<close>

text \<open>
  What the handler takes from outside the request: the digit generation of the language,
  the probe executable, and the identifier that \<open>uuidv4()\<close> returns in this request.
  \<open>generate\<close> is the handler from the parsing of the fields to the argument list of the
  renderer: the headers it sets, in order, and the arguments. On fields that are strings
  or absent none of its own steps throws; the \<open>catch\<close> branch, reached only when a call
  into the runtime throws, is not part of the model.
\<close>

record env =
  fmt :: "rat \<Rightarrow> string"
  ffprobe :: "string \<Rightarrow> probe_run"
  uuidv4 :: string

record plan =
  headers :: "(string \<times> string) list"
  args :: "string list"

definition generate :: "env \<Rightarrow> request \<Rightarrow> plan" where
  "generate e req =
     (let inp = parseInputs req;
          dur = resolveDuration (ffprobe e) req;
          fname = filename (fmt e) (uuidv4 e) (req_body req ''filenameHint'') inp dur
      in \<lparr> headers =
             [(''Content-Type'', ''audio/wav''),
              (''Content-Disposition'', contentDisposition fname)]
             @ metaHeaders (fmt e) inp dur,
           args = ffmpegArgs (fmt e) (req_file req) inp dur \<rparr>)"

section \<open>The render session\<close>

text \<open>
  After the renderer is started the handler only reacts to events: the response closes
  or fails, the renderer writes to its output or its error stream, its output ends, it
  closes with an exit code (none when a signal ended it), or it reports an error.
  The session records every call of \<open>fs.rm\<close> and of \<open>ff.kill\<close>, what the handler
  and the pipe write to the response (the header block with its status, body bytes, an
  error document), whether the response has been ended, and whether the pipe from the
  renderer's output into the response is still attached.
\<close>

datatype event =
  ResClose | ResError
| FfStdoutData string | FfStdoutEnd | FfStderrData string
| FfClose "int option" | FfError string

datatype wire = Head nat | Bytes string | ErrorJson string string

record session =
  upfile :: "upload option"
  rmCalls :: "string list"
  killCalls :: nat
  stderr :: string
  headersSent :: bool
  wrote :: "wire list"
  ended :: bool
  piped :: bool

definition spawned :: "upload option \<Rightarrow> session" where
  "spawned f =
     \<lparr> upfile = f, rmCalls = [], killCalls = 0, stderr = [], headersSent = False,
       wrote = [], ended = False, piped = True \<rparr>"

text \<open>\<open>cleanup\<close>: remove the uploaded file, when there is one with a path.\<close>

definition cleanup :: "session \<Rightarrow> session" where
  "cleanup s =
     (case upfile s of
        Some u \<Rightarrow> if path u \<noteq> [] then s\<lparr>rmCalls := rmCalls s @ [path u]\<rparr> else s
      | None \<Rightarrow> s)"

definition abort :: "session \<Rightarrow> session" where
  "abort s = cleanup (s\<lparr>killCalls := Suc (killCalls s)\<rparr>)"

text \<open>
  \<open>ff.stdout.pipe(res)\<close> attaches the pipe when the handler sets the session up. The
  pipe detaches itself when the response closes, reports an error or has been ended;
  a detached pipe writes nothing and ends nothing.
\<close>

definition unpipe :: "session \<Rightarrow> session" where
  "unpipe s = s\<lparr>piped := False\<rparr>"

text \<open>
  \<open>res.status(500).json({error, details})\<close>: header block, document, end of the
  response.
\<close>

definition json500 :: "string \<Rightarrow> string \<Rightarrow> session \<Rightarrow> session" where
  "json500 err details s =
     unpipe (s\<lparr>headersSent := True, wrote := wrote s @ [Head 500, ErrorJson err details],
               ended := True\<rparr>)"

text \<open>
  Through the attached pipe a chunk of the renderer's output is written to the response,
  the first write sending the header block with status 200, and the end of the output
  ends the response, which sends the header block when nothing was written before.
\<close>

definition pipeData :: "string \<Rightarrow> session \<Rightarrow> session" where
  "pipeData chunk s =
     (if piped s then
        s\<lparr>headersSent := True,
          wrote := wrote s @ (if headersSent s then [] else [Head 200]) @ [Bytes chunk]\<rparr>
      else s)"

definition pipeEnd :: "session \<Rightarrow> session" where
  "pipeEnd s =
     (if piped s then
        unpipe (s\<lparr>headersSent := True,
                  wrote := wrote s @ (if headersSent s then [] else [Head 200]),
                  ended := True\<rparr>)
      else s)"

text \<open>
  The listeners, in the order the handler registers them: on a close or an error of the
  response \<open>abort\<close> runs and then the pipe detaches.
\<close>

fun step :: "event \<Rightarrow> session \<Rightarrow> session" where
  "step ResClose s = unpipe (abort s)"
| "step ResError s = unpipe (abort s)"
| "step (FfStdoutData chunk) s = pipeData chunk s"
| "step FfStdoutEnd s = pipeEnd s"
| "step (FfStderrData d) s = s\<lparr>stderr := stderr s @ d\<rparr>"
| "step (FfClose code) s =
     (let s1 = cleanup s
      in if code \<noteq> Some 0 then
           (if \<not> headersSent s1 then json500 ''Render failed'' (stderr s1) s1 else s1)
         else s1)"
| "step (FfError err) s =
     (let s1 = cleanup s
      in if \<not> headersSent s1 then json500 ''FFmpeg spawn failed'' err s1 else s1)"

definition run :: "event list \<Rightarrow> session \<Rightarrow> session" where
  "run evs s = fold step evs s"

text \<open>\<open>fs.rm\<close> with \<open>force\<close>: the path is gone afterwards, whether it existed or not.\<close>

definition rmForce :: "string list \<Rightarrow> string set \<Rightarrow> string set" where
  "rmForce ps files = fold (\<lambda>p fs. fs - {p}) ps files"

text \<open>
  The events on which the handler ends the session: the two signals of a client abort,
  which call \<open>abort\<close>, and the two process events, whose handlers call \<open>cleanup\<close>.
  \<open>uploadPath\<close> is what one call of \<open>cleanup\<close> passes to \<open>fs.rm\<close>.
\<close>

fun isAbortSignal :: "event \<Rightarrow> bool" where
  "isAbortSignal ResClose = True"
| "isAbortSignal ResError = True"
| "isAbortSignal _ = False"

fun isProcessEnd :: "event \<Rightarrow> bool" where
  "isProcessEnd (FfClose _) = True"
| "isProcessEnd (FfError _) = True"
| "isProcessEnd _ = False"

definition uploadPath :: "upload option \<Rightarrow> string list" where
  "uploadPath f = (case f of Some u \<Rightarrow> if path u \<noteq> [] then [path u] else [] | None \<Rightarrow> [])"

section \<open>Facts about rounding\<close>


lemma pow2_powi: "pow2 e = 2 powi e"
  unfolding pow2_def power_int_def by (simp add: power_one_over inverse_eq_divide)

lemma pow2_pos: "0 < pow2 e"
  by (simp add: pow2_powi)

lemma pow2_mono: "pow2 x \<le> pow2 y \<longleftrightarrow> x \<le> y"
proof
  assume "pow2 x \<le> pow2 y"
  show "x \<le> y"
  proof (rule ccontr)
    assume "\<not> x \<le> y"
    then have "y < x" by simp
    then have "(2::rat) powi y < 2 powi x" by (rule power_int_strict_increasing) simp
    with \<open>pow2 x \<le> pow2 y\<close> show False by (simp add: pow2_powi)
  qed
next
  assume "x \<le> y"
  then have "(2::rat) powi x \<le> 2 powi y" by (rule power_int_increasing) simp
  then show "pow2 x \<le> pow2 y" by (simp add: pow2_powi)
qed

lemma pow2_add: "pow2 (x + y) = pow2 x * pow2 y"
  by (simp add: pow2_powi power_int_add)

lemma pow2_nat: "pow2 (int n) = 2 ^ n"
  by (simp add: pow2_def)

lemma ilog2_lower:
  assumes "0 < a"
  shows "pow2 (ilog2 a) \<le> a"
proof -
  obtain p q where pq: "quotient_of a = (p, q)" by (cases "quotient_of a")
  have q: "0 < q" using pq by (rule quotient_of_denom_pos)
  have a: "a = of_int p / of_int q" using pq by (rule quotient_of_div)
  have p: "0 < p" using assms q a by (simp add: zero_less_divide_iff)
  define e0 where "e0 = bitlen p - bitlen q"
  show ?thesis
  proof (cases "pow2 e0 \<le> a")
    case True
    then show ?thesis by (simp add: ilog2_def pq e0_def)
  next
    case False
    have bp: "1 \<le> bitlen p" using p by (simp add: bitlen_ge_iff_power)
    have bq: "1 \<le> bitlen q" using q by (simp add: bitlen_ge_iff_power)
    have lo: "(2::int) ^ nat (bitlen p - 1) \<le> p" using bitlen_bounds[OF p] by simp
    have hi: "q < (2::int) ^ nat (bitlen q)" using bitlen_bounds[OF q] by simp
    have lo': "pow2 (bitlen p - 1) \<le> of_int p"
    proof -
      have "(of_int ((2::int) ^ nat (bitlen p - 1)) :: rat) \<le> of_int p"
        using lo by (simp only: of_int_le_iff)
      then show ?thesis using bp by (simp add: pow2_def)
    qed
    have hi': "of_int q \<le> pow2 (bitlen q)"
    proof -
      have "(of_int q :: rat) \<le> of_int ((2::int) ^ nat (bitlen q))"
        using hi by (simp only: of_int_le_iff)
      then show ?thesis using bq by (simp add: pow2_def)
    qed
    have "pow2 (e0 - 1) * of_int q \<le> pow2 (e0 - 1) * pow2 (bitlen q)"
      using hi' pow2_pos[of "e0 - 1"] by simp
    also have "\<dots> = pow2 (bitlen p - 1)"
      by (simp add: e0_def flip: pow2_add)
    also have "\<dots> \<le> of_int p" by (rule lo')
    finally have "pow2 (e0 - 1) \<le> a"
      using q by (simp add: a pos_le_divide_eq)
    then show ?thesis using False by (simp add: ilog2_def pq e0_def)
  qed
qed

lemma roundTiesToEven_of_int: "roundTiesToEven (of_int m) = m"
  by (simp add: roundTiesToEven_def)

lemma roundTiesToEven_le:
  assumes "q \<le> of_int M"
  shows "roundTiesToEven q \<le> M"
proof (cases "q = of_int M")
  case True
  then show ?thesis by (simp add: roundTiesToEven_of_int)
next
  case False
  with assms have "q < of_int M" by simp
  then have "\<lfloor>q\<rfloor> < M" by (simp add: floor_less_iff)
  then show ?thesis by (simp add: roundTiesToEven_def Let_def)
qed

lemma roundTiesToEven_nonneg: "0 \<le> q \<Longrightarrow> 0 \<le> roundTiesToEven q"
  by (simp add: roundTiesToEven_def Let_def)


lemma round64_bounded:
  assumes "0 \<le> v" "v \<le> 2 ^ k" "k < 1024"
  shows "\<exists>r. round64 v = Fin r \<and> 0 \<le> r \<and> r \<le> 2 ^ k"
proof (cases "v = 0")
  case True
  then show ?thesis by (simp add: round64_def)
next
  case False
  with assms have v: "0 < v" by simp
  define e where "e = max (ilog2 v) (- 1022)"
  define u where "u = pow2 (e - 52)"
  define n where "n = roundTiesToEven (v / u)"
  have vk: "v \<le> pow2 (int k)" using assms(2) by (simp add: pow2_nat)
  have "pow2 (ilog2 v) \<le> pow2 (int k)" using ilog2_lower[OF v] vk by simp
  then have "ilog2 v \<le> int k" by (simp add: pow2_mono)
  then have ek: "e \<le> int k" by (simp add: e_def)
  define d where "d = nat (int k - (e - 52))"
  have u: "0 < u" by (simp add: u_def pow2_pos)
  have "pow2 (int d) * u = pow2 (int d + (e - 52))" by (simp add: u_def pow2_add)
  also have "int d + (e - 52) = int k" using ek by (simp add: d_def)
  finally have Mu: "of_int (2 ^ d) * u = (2::rat) ^ k" by (simp add: pow2_nat)
  have "v / u \<le> of_int (2 ^ d)" using u assms(2) Mu by (simp add: pos_divide_le_eq)
  then have nM: "n \<le> 2 ^ d" unfolding n_def by (rule roundTiesToEven_le)
  have n0: "0 \<le> n" unfolding n_def using v u by (intro roundTiesToEven_nonneg) simp
  have "of_int n * u \<le> of_int (2 ^ d) * u"
    using nM u by (simp only: mult_le_cancel_right_pos of_int_le_iff)
  then have r_le: "of_int n * u \<le> 2 ^ k" using Mu by simp
  have r_ge: "0 \<le> of_int n * u" using n0 u by simp
  have "(2::rat) ^ k < 2 ^ 1024" using assms(3) by (simp only: power_strict_increasing_iff one_less_numeral_iff semiring_norm)
  then have "\<not> pow2 1024 \<le> of_int n * u" using r_le by (simp add: pow2_def)
  then have "round64 v = Fin (of_int n * u)"
    using v False by (simp add: round64_def Let_def e_def[symmetric] u_def[symmetric] n_def[symmetric])
  then show ?thesis using r_le r_ge by simp
qed

lemma round64_nonneg_int:
  assumes "0 \<le> n" "n < 2 ^ 53"
  shows "round64 (of_int n) = Fin (of_int n)"
proof (cases "n = 0")
  case True
  then show ?thesis by (simp add: round64_def)
next
  case False
  define v :: rat where "v = of_int n"
  have v: "0 < v" using assms False by (simp add: v_def)
  define e where "e = max (ilog2 v) (- 1022)"
  define u where "u = pow2 (e - 52)"
  have "v < of_int (2 ^ 53)" unfolding v_def using assms(2) by (simp only: of_int_less_iff)
  then have "v < pow2 53" by (simp add: pow2_def)
  then have "pow2 (ilog2 v) < pow2 53" using ilog2_lower[OF v] by simp
  then have "\<not> pow2 53 \<le> pow2 (ilog2 v)" by simp
  then have "ilog2 v < 53" by (simp add: pow2_mono)
  then have e52: "e \<le> 52" by (simp add: e_def)
  define d where "d = nat (52 - e)"
  have u: "0 < u" by (simp add: u_def pow2_pos)
  have "pow2 (int d) * u = pow2 (int d + (e - 52))" by (simp add: u_def pow2_add)
  also have "int d + (e - 52) = 0" using e52 by (simp add: d_def)
  finally have du: "2 ^ d * u = 1" by (simp add: pow2_nat pow2_def)
  then have "v / u = v * 2 ^ d" using u by (simp add: field_simps)
  also have "\<dots> = of_int (n * 2 ^ d)" by (simp add: v_def)
  finally have "roundTiesToEven (v / u) = n * 2 ^ d" by (simp only: roundTiesToEven_of_int)
  then have r: "of_int (roundTiesToEven (v / u)) * u = v"
    using du by (simp add: v_def mult.assoc)
  have "v < pow2 1024"
    using \<open>v < pow2 53\<close> pow2_mono[of 53 1024] by simp
  then show ?thesis
    using v r unfolding v_def[symmetric]
    by (simp add: round64_def Let_def e_def[symmetric] u_def[symmetric])
qed

lemma round64_numeral:
  "(numeral w :: int) < 2 ^ 53 \<Longrightarrow> round64 (numeral w) = Fin (numeral w)"
  using round64_nonneg_int[of "numeral w"] by simp

section \<open>Parameter resolution and labels\<close>


lemma num_Fin:
  "num value def (Fin lo) (Fin hi) =
     (case Number_js value of Fin v \<Rightarrow> Fin (min (max v lo) hi) | _ \<Rightarrow> def)"
  by (cases "Number_js value") (auto simp: num_def Let_def Math_min_def Math_max_def min_def max_def)

lemma num_range:
  assumes "lo \<le> hi" "lo \<le> d" "d \<le> hi"
  shows "\<exists>r. num value (Fin d) (Fin lo) (Fin hi) = Fin r \<and> lo \<le> r \<and> r \<le> hi"
  using assms by (cases "Number_js value") (auto simp: num_Fin)

lemma Number_js_empty: "Number_js (Some []) = Fin 0"
  by (simp add: Number_js_def StringToNumber_def trim_def)

text \<open>
  Claim C1. Every numeric field resolves into its documented range, a finite input being
  clamped, and an absent or non-finite input (non-numeric, empty, \<open>NaN\<close>, \<open>Infinity\<close>)
  gives exactly the documented default. The lemmas \<open>num_Fin\<close> and \<open>num_range\<close> above
  give the range and the clamping. The empty field is where the code departs: \<open>Number('')\<close>
  is 0, a finite number, so an empty \<open>carrier\<close> resolves to the lower bound 100 and not
  to the default 420, which an absent \<open>carrier\<close> gives.
\<close>

theorem carrier_empty_field:
  "carrier (parseInputs \<lparr>req_body = [''carrier'' \<mapsto> ''''], req_file = None\<rparr>) = Fin 100
   \<and> carrier (parseInputs \<lparr>req_body = Map.empty, req_file = None\<rparr>) = Fin 420"
  by (simp add: parseInputs_def num_Fin Number_js_empty) (simp add: Number_js_def)

lemma beats_range:
  "\<exists>s e. beatStart (parseInputs req) = Fin s \<and> beatEnd (parseInputs req) = Fin e
     \<and> 0 \<le> s \<and> s \<le> 40 \<and> 0 \<le> e \<and> e \<le> 40"
proof -
  obtain s where s: "num (req_body req ''beatStart'') (Fin 12) (Fin 0) (Fin 40) = Fin s" "0 \<le> s" "s \<le> 40"
    using num_range[of 0 40 12 "req_body req ''beatStart''"] by auto
  obtain e where e: "num (req_body req ''beatEnd'') (Fin 14) (Fin 0) (Fin 40) = Fin e" "0 \<le> e" "e \<le> 40"
    using num_range[of 0 40 14 "req_body req ''beatEnd''"] by auto
  show ?thesis using s e by (simp add: parseInputs_def)
qed

lemma bandLabel_Fin:
  "bandLabel (Fin a) =
     (if a < 4 then ''Delta'' else if a < 8 then ''Theta'' else if a < 12 then ''Alpha''
      else if a \<le> 20 then ''Beta'' else ''Custom'')"
  by (auto simp: bandLabel_def js_ge_def js_le_def js_eq_def)

lemma avgBeat_range:
  "\<exists>a. avgBeat (parseInputs req) = Fin a \<and> 0 \<le> a \<and> a \<le> 64"
proof -
  obtain s e where se: "beatStart (parseInputs req) = Fin s" "beatEnd (parseInputs req) = Fin e"
      "0 \<le> s" "s \<le> 40" "0 \<le> e" "e \<le> 40"
    using beats_range[of req] by auto
  have "0 \<le> s + e" "s + e \<le> 2 ^ 7" using se by simp_all
  then obtain t where t: "round64 (s + e) = Fin t" "0 \<le> t" "t \<le> 2 ^ 7"
    using round64_bounded[of "s + e" 7] by auto
  have "0 \<le> t / 2" "t / 2 \<le> 2 ^ 6" using t by simp_all
  then obtain a where a: "round64 (t / 2) = Fin a" "0 \<le> a" "a \<le> 2 ^ 6"
    using round64_bounded[of "t / 2" 6] by auto
  show ?thesis using se t a by (simp add: avgBeat_def)
qed

text \<open>
  Claim C3. The average of the two clamped beats is a finite number, and the label is
  Delta below 4, Theta from 4 and below 8, Alpha from 8 and below 12, Beta from 12 up to
  and including 20, and Custom above; so 12 and 20 are Beta, 11.999 is Alpha, 20.001 is
  Custom and 0 is Delta.
\<close>

theorem band_label_by_average:
  "(\<exists>a. avgBeat (parseInputs req) = Fin a \<and>
        label (parseInputs req) =
          (if a < 4 then ''Delta'' else if a < 8 then ''Theta'' else if a < 12 then ''Alpha''
           else if a \<le> 20 then ''Beta'' else ''Custom''))
   \<and> bandLabel (Fin 12) = ''Beta'' \<and> bandLabel (Fin 20) = ''Beta''
   \<and> bandLabel (Fin (11999 / 1000)) = ''Alpha'' \<and> bandLabel (Fin (20001 / 1000)) = ''Custom''
   \<and> bandLabel (Fin 0) = ''Delta''"
proof -
  obtain a where a: "avgBeat (parseInputs req) = Fin a" using avgBeat_range[of req] by auto
  have "label (parseInputs req) =
          (if a < 4 then ''Delta'' else if a < 8 then ''Theta'' else if a < 12 then ''Alpha''
           else if a \<le> 20 then ''Beta'' else ''Custom'')"
    by (simp only: label_def a bandLabel_Fin)
  with a show ?thesis by (simp add: bandLabel_Fin)
qed

lemmas scan_defs = Number_js_def StringToNumber_def parseFloat_def trim_def isWhiteSpace_def
  scanSigned_def scanUnsigned_def scanExponent_def radixLiteral_def isDigit_def isHexDigit_def
  digitsToNat_def digitVal_def pow10_def round64_numeral

lemma clamp_Fin: "Math_min (Math_max (Fin v) (Fin lo)) (Fin hi) = Fin (min (max v lo) hi)"
  by (auto simp: Math_min_def Math_max_def min_def max_def)

lemma resolveDuration_explicit:
  assumes "Number_js (req_body req ''durationSec'') = Fin v"
  shows "resolveDuration probe req = Fin (min (max v 60) 7200)"
  using assms by (cases "req_file req") (simp_all add: resolveDuration_def num_Fin)

lemma resolveDuration_no_music:
  assumes "\<not> isFinite (Number_js (req_body req ''durationSec''))" "req_file req = None"
  shows "resolveDuration probe req = Fin 1800"
  using assms by (cases "Number_js (req_body req ''durationSec'')") (simp_all add: resolveDuration_def num_Fin)

lemma resolveDuration_probe:
  assumes "\<not> isFinite (Number_js (req_body req ''durationSec''))" "req_file req = Some f"
  shows "resolveDuration probe req =
           (case probeDurationSec probe (path f) of
              Inr probed \<Rightarrow> (let d = Math_min (Math_max (Math_round probed) (Fin 60)) (Fin 7200)
                             in if \<not> isFinite d then Fin 1800 else d)
            | Inl _ \<Rightarrow> Fin 1800)"
  using assms by (cases "Number_js (req_body req ''durationSec'')")
    (simp_all add: resolveDuration_def num_Fin Let_def split: sum.splits)

lemma probeDurationSec_cases:
  "probeDurationSec probe fp =
     (case probe fp of
        ProbeError m \<Rightarrow> Inl m
      | ProbeClose code out err \<Rightarrow>
          (case parseFloat (trim out) of
             Fin p \<Rightarrow> if code = Some 0 then Inr (Fin p)
                      else Inl (if err \<noteq> [] then err else ''ffprobe failed'')
           | _ \<Rightarrow> if code = Some 0 then Inl ''No duration''
                  else Inl (if err \<noteq> [] then err else ''ffprobe failed'')))"
proof (cases "probe fp")
  case (ProbeError m)
  then show ?thesis by (simp add: probeDurationSec_def)
next
  case (ProbeClose code out err)
  then show ?thesis
    by (cases "parseFloat (trim out)") (simp_all add: probeDurationSec_def Let_def)
qed

lemma duration_range: "\<exists>d. resolveDuration probe req = Fin d \<and> 60 \<le> d \<and> d \<le> 7200"
proof (cases "Number_js (req_body req ''durationSec'')")
  case (Fin v)
  then show ?thesis by (simp add: resolveDuration_explicit)
next
  case NaN
  then have nf: "\<not> isFinite (Number_js (req_body req ''durationSec''))" by simp
  show ?thesis
  proof (cases "req_file req")
    case None
    with nf show ?thesis by (simp add: resolveDuration_no_music)
  next
    case (Some f)
    with nf show ?thesis
      by (auto simp: resolveDuration_probe probeDurationSec_cases clamp_Fin
          split: probe_run.splits jsnum.splits)
  qed
next
  case PInf
  then have nf: "\<not> isFinite (Number_js (req_body req ''durationSec''))" by simp
  show ?thesis
  proof (cases "req_file req")
    case None
    with nf show ?thesis by (simp add: resolveDuration_no_music)
  next
    case (Some f)
    with nf show ?thesis
      by (auto simp: resolveDuration_probe probeDurationSec_cases clamp_Fin
          split: probe_run.splits jsnum.splits)
  qed
next
  case NInf
  then have nf: "\<not> isFinite (Number_js (req_body req ''durationSec''))" by simp
  show ?thesis
  proof (cases "req_file req")
    case None
    with nf show ?thesis by (simp add: resolveDuration_no_music)
  next
    case (Some f)
    with nf show ?thesis
      by (auto simp: resolveDuration_probe probeDurationSec_cases clamp_Fin
          split: probe_run.splits jsnum.splits)
  qed
qed

text \<open>
  The order of the resolution, in terms of what \<open>Number\<close> reads from the field.
  A \<open>durationSec\<close> field that reads as a finite number is clamped to 60..7200 and
  used, whether or not music was uploaded and whatever the probe would say. Otherwise,
  with music, the probe runs on the uploaded file: when it exits with 0 and its output
  reads as a finite number, that number is rounded to the nearest second and clamped to
  60..7200; when its output does not read as a finite number, or it exits with another
  code, or the process reports an error, the duration is 1800. Otherwise, without music,
  the duration is 1800. In every case the duration is a finite number from 60 to 7200.
\<close>

lemma resolveDuration_order:
  "(\<forall>v. Number_js (req_body req ''durationSec'') = Fin v \<longrightarrow>
        resolveDuration probe req = Fin (min (max v 60) 7200))
   \<and> (\<not> isFinite (Number_js (req_body req ''durationSec'')) \<longrightarrow>
        (\<forall>f. req_file req = Some f \<longrightarrow>
           (\<forall>out err p. probe (path f) = ProbeClose (Some 0) out err
                \<and> parseFloat (trim out) = Fin p \<longrightarrow>
              resolveDuration probe req = Fin (min (max (of_int \<lfloor>p + 1 / 2\<rfloor>) 60) 7200))
         \<and> (\<forall>out err. probe (path f) = ProbeClose (Some 0) out err
                \<and> \<not> isFinite (parseFloat (trim out)) \<longrightarrow>
              resolveDuration probe req = Fin 1800)
         \<and> (\<forall>code out err. probe (path f) = ProbeClose code out err \<and> code \<noteq> Some 0 \<longrightarrow>
              resolveDuration probe req = Fin 1800)
         \<and> (\<forall>m. probe (path f) = ProbeError m \<longrightarrow> resolveDuration probe req = Fin 1800))
        \<and> (req_file req = None \<longrightarrow> resolveDuration probe req = Fin 1800))
   \<and> (\<exists>d. resolveDuration probe req = Fin d \<and> 60 \<le> d \<and> d \<le> 7200)"
proof (intro conjI allI impI)
  fix v assume "Number_js (req_body req ''durationSec'') = Fin v"
  then show "resolveDuration probe req = Fin (min (max v 60) 7200)"
    by (rule resolveDuration_explicit)
next
  fix f out err p
  assume "\<not> isFinite (Number_js (req_body req ''durationSec''))" "req_file req = Some f"
    "probe (path f) = ProbeClose (Some 0) out err \<and> parseFloat (trim out) = Fin p"
  then show "resolveDuration probe req = Fin (min (max (of_int \<lfloor>p + 1 / 2\<rfloor>) 60) 7200)"
    by (simp add: resolveDuration_probe probeDurationSec_cases clamp_Fin)
next
  fix f out err
  assume "\<not> isFinite (Number_js (req_body req ''durationSec''))" "req_file req = Some f"
    "probe (path f) = ProbeClose (Some 0) out err \<and> \<not> isFinite (parseFloat (trim out))"
  then show "resolveDuration probe req = Fin 1800"
    by (cases "parseFloat (trim out)") (simp_all add: resolveDuration_probe probeDurationSec_cases)
next
  fix f code out err
  assume "\<not> isFinite (Number_js (req_body req ''durationSec''))" "req_file req = Some f"
    "probe (path f) = ProbeClose code out err \<and> code \<noteq> Some 0"
  then show "resolveDuration probe req = Fin 1800"
    by (cases "parseFloat (trim out)") (simp_all add: resolveDuration_probe probeDurationSec_cases)
next
  fix f m
  assume "\<not> isFinite (Number_js (req_body req ''durationSec''))" "req_file req = Some f"
    "probe (path f) = ProbeError m"
  then show "resolveDuration probe req = Fin 1800"
    by (simp add: resolveDuration_probe probeDurationSec_cases)
next
  assume "\<not> isFinite (Number_js (req_body req ''durationSec''))" "req_file req = None"
  then show "resolveDuration probe req = Fin 1800"
    by (rule resolveDuration_no_music)
next
  show "\<exists>d. resolveDuration probe req = Fin d \<and> 60 \<le> d \<and> d \<le> 7200"
    by (rule duration_range)
qed

text \<open>
  Claim C2. A finite numeric \<open>durationSec\<close> is clamped and used; otherwise, with music,
  the probed length is used, or 1800 when the probe fails; otherwise 1800. The empty field
  is where the code departs, as for the other numeric fields: \<open>Number('')\<close> is 0, so an
  empty \<open>durationSec\<close> counts as supplied, is clamped to 60, and the probe is not
  consulted. With the same upload, probed at 300 seconds, the absent field gives 300;
  without music the empty field gives 60 and the absent field 1800.
\<close>

theorem duration_empty_field:
  "resolveDuration (\<lambda>_. ProbeClose (Some 0) (''300.000000'' @ [CHR 0x0A]) [])
      \<lparr>req_body = [''durationSec'' \<mapsto> ''''], req_file = Some \<lparr>path = ''uploads/u1''\<rparr>\<rparr>
     = Fin 60
   \<and> resolveDuration (\<lambda>_. ProbeClose (Some 0) (''300.000000'' @ [CHR 0x0A]) [])
      \<lparr>req_body = Map.empty, req_file = Some \<lparr>path = ''uploads/u1''\<rparr>\<rparr>
     = Fin 300
   \<and> resolveDuration (\<lambda>_. ProbeError [])
      \<lparr>req_body = [''durationSec'' \<mapsto> ''''], req_file = None\<rparr>
     = Fin 60
   \<and> resolveDuration (\<lambda>_. ProbeError []) \<lparr>req_body = Map.empty, req_file = None\<rparr>
     = Fin 1800"
proof -
  let ?f = "\<lparr>path = ''uploads/u1''\<rparr>"
  let ?ok = "\<lambda>_::string. ProbeClose (Some 0) (''300.000000'' @ [CHR 0x0A]) []"
  let ?er = "\<lambda>_::string. ProbeError []"
  let ?re = "\<lparr>req_body = [''durationSec'' \<mapsto> ''''], req_file = Some ?f\<rparr>"
  let ?ra = "\<lparr>req_body = Map.empty, req_file = Some ?f\<rparr>"
  let ?ren = "\<lparr>req_body = [''durationSec'' \<mapsto> ''''], req_file = None\<rparr>"
  let ?ran = "\<lparr>req_body = Map.empty, req_file = None\<rparr>"
  have ne: "Number_js (req_body ?re ''durationSec'') = Fin 0"
    "Number_js (req_body ?ren ''durationSec'') = Fin 0"
    by (simp_all add: Number_js_empty)
  have na: "\<not> isFinite (Number_js (req_body ?ra ''durationSec''))"
    "\<not> isFinite (Number_js (req_body ?ran ''durationSec''))"
    by (simp_all add: Number_js_def)
  have p300: "parseFloat (trim (''300.000000'' @ [CHR 0x0A])) = Fin 300"
    by (simp add: scan_defs)
  have fl: "\<lfloor>(601::rat) / 2\<rfloor> = 300" by (simp add: floor_eq_iff)
  have a: "resolveDuration ?ok ?re = Fin 60"
    using resolveDuration_explicit[OF ne(1), of ?ok] by simp
  have b: "resolveDuration ?ok ?ra = Fin 300"
    using resolveDuration_order[of ?ra ?ok] na(1) p300 by (simp add: fl)
  have c: "resolveDuration ?er ?ren = Fin 60"
    using resolveDuration_explicit[OF ne(2), of ?er] by simp
  have d: "resolveDuration ?er ?ran = Fin 1800"
    using resolveDuration_no_music[OF na(2), of ?er] by simp
  show ?thesis using a b c d by simp
qed

section \<open>The tone generator\<close>

lemma numToString_zero: "numToString fm (Fin 0) = ''0''"
  by (simp add: numToString_def intToString_def natToString.simps[of 0] digitChar_def)

lemma k_slope_equal_beats:
  assumes "beatStart inp = Fin b" "beatEnd inp = Fin b" "dur = Fin d" "d \<noteq> 0"
  shows "k_slope inp dur = Fin 0"
  using assms by (simp add: k_slope_def js_sub_def round64_def)

text \<open>
  Claim C4. With \<open>G\<close>, \<open>FC\<close>, \<open>BS\<close> the printed tone gain, carrier and start beat and
  \<open>K\<close> the printed slope \<open>k = (be - bs) / dur\<close>, the left expression is
  \<open>G*sin(2*PI*FC*t)\<close> and the right one \<open>G*sin(2*PI*((FC+BS)*t + 0.5*K*t*t))\<close>, and
  the generator evaluates the two at 48000 Hz for the duration. When the start and end
  beats are equal, \<open>k\<close> is exactly 0 and the ramp term of the right expression is
  \<open>0.5*0*t*t\<close>.
\<close>

theorem tone_expressions:
  fixes fm :: "rat \<Rightarrow> string" and probe :: "string \<Rightarrow> probe_run" and req :: request
  defines "inp \<equiv> parseInputs req"
  defines "dur \<equiv> resolveDuration probe req"
  defines "G \<equiv> numToString fm (toneGain inp)"
  defines "FC \<equiv> numToString fm (carrier inp)"
  defines "BS \<equiv> numToString fm (beatStart inp)"
  shows "leftExpr fm inp = G @ ''*sin(2*PI*'' @ FC @ ''*t)''
    \<and> rightExpr fm inp dur
        = G @ ''*sin(2*PI*(('' @ FC @ ''+'' @ BS @ '')*t + 0.5*''
            @ numToString fm (js_div (js_sub (beatEnd inp) (beatStart inp)) dur) @ ''*t*t))''
    \<and> toneGen fm inp dur
        = ''aevalsrc=exprs='' @ leftExpr fm inp @ [CHR 0x5C] @ ''|'' @ rightExpr fm inp dur
            @ '':s=48000:d='' @ numToString fm dur
    \<and> (beatStart inp = beatEnd inp \<longrightarrow>
          js_div (js_sub (beatEnd inp) (beatStart inp)) dur = Fin 0
          \<and> rightExpr fm inp dur
              = G @ ''*sin(2*PI*(('' @ FC @ ''+'' @ BS @ '')*t + 0.5*0*t*t))'')"
proof -
  obtain d where d: "dur = Fin d" "60 \<le> d"
    using duration_range[of probe req] by (auto simp: dur_def)
  obtain s e where se: "beatStart inp = Fin s" "beatEnd inp = Fin e"
    using beats_range[of req] by (auto simp: inp_def)
  have sr: "numToString fm sr = ''48000''"
    by (simp add: sr_def numToString_def intToString_def natToString.simps digitChar_def)
  have k0: "beatStart inp = beatEnd inp \<longrightarrow> k_slope inp dur = Fin 0"
    using k_slope_equal_beats[of inp s dur d] se d by auto
  show ?thesis
    using k0 by (auto simp: leftExpr_def rightExpr_def toneGen_def sr G_def FC_def BS_def
        k_slope_def numToString_zero)
qed

theorem tone_expressions_witness:
  "js_div
     (js_sub
        (beatEnd (parseInputs \<lparr>req_body = [''beatStart'' \<mapsto> ''8'', ''beatEnd'' \<mapsto> ''8''],
                                req_file = None\<rparr>))
        (beatStart (parseInputs \<lparr>req_body = [''beatStart'' \<mapsto> ''8'', ''beatEnd'' \<mapsto> ''8''],
                                  req_file = None\<rparr>)))
     (resolveDuration (\<lambda>_. ProbeError [])
        \<lparr>req_body = [''beatStart'' \<mapsto> ''8'', ''beatEnd'' \<mapsto> ''8''], req_file = None\<rparr>)
   = Fin 0"
proof -
  let ?r = "\<lparr>req_body = [''beatStart'' \<mapsto> ''8'', ''beatEnd'' \<mapsto> ''8''], req_file = None\<rparr>"
  have n8: "Number_js (Some ''8'') = Fin 8" by (simp add: scan_defs)
  have "beatStart (parseInputs ?r) = beatEnd (parseInputs ?r)"
    by (simp add: parseInputs_def num_Fin n8)
  then show ?thesis
    using tone_expressions[where req = ?r and probe = "\<lambda>_. ProbeError []"] by blast
qed

section \<open>The file name\<close>

lemma digitChar_word: "isWordOrHyphen (digitChar d)"
proof -
  define c where "c = digitChar d"
  have "c \<in> set ''0123456789''"
    unfolding c_def digitChar_def by (rule nth_mem) simp
  then have "isWordOrHyphen c" by (auto simp: isWordOrHyphen_def)
  then show ?thesis by (simp add: c_def)
qed

lemma natToString_word: "list_all isWordOrHyphen (natToString n)"
proof (induction n rule: natToString.induct)
  case (1 n)
  show ?case
  proof (cases "n < 10")
    case True
    then show ?thesis by (simp add: natToString.simps[of n] digitChar_word)
  next
    case False
    with 1 show ?thesis by (simp add: natToString.simps[of n] digitChar_word)
  qed
qed


lemma intToString_word: "list_all isWordOrHyphen (intToString i)"
  by (simp add: intToString_def natToString_word isWordOrHyphen_def)


lemma bandLabel_values:
  "bandLabel x \<in> {''Beta'', ''Alpha'', ''Theta'', ''Delta'', ''Custom''}"
  by (simp add: bandLabel_def)


lemma bandLabel_word: "list_all isWordOrHyphen (bandLabel x)"
  using bandLabel_values[of x] by (auto simp: isWordOrHyphen_def)


lemma bandLabel_hint_fixed: "take 40 (filter isWordOrHyphen (bandLabel x)) = bandLabel x"
  using bandLabel_values[of x] by (auto simp: isWordOrHyphen_def)


lemma bandLabel_nonempty: "bandLabel x \<noteq> []"
  using bandLabel_values[of x] by auto


lemma hint_form:
  "hint fh (bandLabel x) =
     (let h = take 40 (filter isWordOrHyphen (case fh of None \<Rightarrow> [] | Some s \<Rightarrow> s))
      in if h = [] then bandLabel x else h)"
  by (cases fh) (auto simp: hint_def Let_def bandLabel_hint_fixed bandLabel_nonempty)


lemma hint_word: "list_all isWordOrHyphen (hint fh (bandLabel x))"
proof -
  have "list_all isWordOrHyphen (take 40 (filter isWordOrHyphen s))" for s
    by (auto simp: list_all_iff dest: in_set_takeD)
  then show ?thesis by (simp add: hint_form Let_def bandLabel_word)
qed

lemma toFixed2_nonneg:
  assumes "0 \<le> r" "r < 10 ^ 21"
  shows "toFixed2 fm (Fin r) =
           natToString (nat \<lfloor>r * 100 + 1 / 2\<rfloor> div 100) @ ''.''
             @ [digitChar (nat \<lfloor>r * 100 + 1 / 2\<rfloor> mod 100 div 10),
                digitChar (nat \<lfloor>r * 100 + 1 / 2\<rfloor> mod 10)]"
  using assms by (simp add: toFixed2_def Let_def abs_of_nonneg)


lemma natToString_small: "n < 10 \<Longrightarrow> natToString n = [digitChar n]"
  by (simp add: natToString.simps[of n])

lemma natToString_two:
  "10 \<le> n \<Longrightarrow> n < 100 \<Longrightarrow> natToString n = [digitChar (n div 10), digitChar (n mod 10)]"
  by (simp add: natToString.simps[of n] natToString_small)

lemma toFixed2_of_nat:
  assumes "n < 10 ^ 21"
  shows "toFixed2 fm (Fin (of_nat n)) = natToString n @ ''.00''"
proof -
  have lt: "(of_nat n :: rat) < 10 ^ 21"
    using assms by (metis of_nat_less_iff of_nat_numeral of_nat_power)
  have half: "\<lfloor>(1::rat) / 2\<rfloor> = 0" by (simp add: floor_eq_iff)
  have "\<lfloor>(of_nat n :: rat) * 100\<rfloor> = \<lfloor>(of_nat (n * 100) :: rat)\<rfloor>" by simp
  also have "\<dots> = int (n * 100)" by (simp only: floor_of_nat)
  finally have "\<lfloor>(of_nat n :: rat) * 100 + 1 / 2\<rfloor> = int (n * 100)"
    using half by (simp del: of_nat_mult)
  then have fl: "nat \<lfloor>(of_nat n :: rat) * 100 + 1 / 2\<rfloor> = n * 100"
    by (simp only: nat_int)
  have "toFixed2 fm (Fin (of_nat n)) =
          natToString (n * 100 div 100) @ ''.''
            @ [digitChar (n * 100 mod 100 div 10), digitChar (n * 100 mod 10)]"
    using lt by (simp only: toFixed2_nonneg[OF of_nat_0_le_iff lt] fl)
  then show ?thesis by (simp add: digitChar_def)
qed

lemma toFixed2_14: "toFixed2 fm (Fin 14) = ''14.00''"
  using toFixed2_of_nat[of 14 fm] by (simp add: natToString_two digitChar_def)

lemma toFixed2_18: "toFixed2 fm (Fin 18) = ''18.00''"
  using toFixed2_of_nat[of 18 fm] by (simp add: natToString_two digitChar_def)

lemma toFixed2_8: "toFixed2 fm (Fin 8) = ''8.00''"
  using toFixed2_of_nat[of 8 fm] by (simp add: natToString_small digitChar_def)

lemma replaceDots_word:
  assumes "\<forall>c\<in>set s. isWordOrHyphen c \<or> c = CHR ''.''"
  shows "list_all isWordOrHyphen (replaceDots s)"
proof -
  have p: "isWordOrHyphen (CHR ''p'')" by (simp add: isWordOrHyphen_def)
  show ?thesis using assms p by (auto simp: replaceDots_def list_all_iff)
qed

lemma toFixed2_chars:
  assumes "0 \<le> r" "r < 10 ^ 21"
  shows "\<forall>c\<in>set (toFixed2 fm (Fin r)). isWordOrHyphen c \<or> c = CHR ''.''"
  using natToString_word[of "nat \<lfloor>r * 100 + 1 / 2\<rfloor> div 100"]
  by (auto simp: toFixed2_nonneg[OF assms] digitChar_word list_all_iff)

lemma prettyBeat_form:
  assumes "beatStart inp = Fin s" "beatEnd inp = Fin e"
  shows "prettyBeat fm inp =
           (if s = e then toFixed2 fm (Fin e) @ ''Hz''
            else toFixed2 fm (Fin s) @ ''-'' @ toFixed2 fm (Fin e) @ ''Hz'')"
  using assms by (simp add: prettyBeat_def js_eq_def)


lemma prettyBeat_word:
  "list_all isWordOrHyphen (replaceDots (prettyBeat fm (parseInputs req)))"
proof -
  obtain s e where se: "beatStart (parseInputs req) = Fin s" "beatEnd (parseInputs req) = Fin e"
      "0 \<le> s" "s \<le> 40" "0 \<le> e" "e \<le> 40"
    using beats_range[of req] by auto
  have s: "\<forall>c\<in>set (toFixed2 fm (Fin s)). isWordOrHyphen c \<or> c = CHR ''.''"
    using se by (intro toFixed2_chars) simp_all
  have e: "\<forall>c\<in>set (toFixed2 fm (Fin e)). isWordOrHyphen c \<or> c = CHR ''.''"
    using se by (intro toFixed2_chars) simp_all
  have hz: "isWordOrHyphen (CHR ''H'')" "isWordOrHyphen (CHR ''z'')" "isWordOrHyphen (CHR ''-'')"
    by (simp_all add: isWordOrHyphen_def)
  have "\<forall>c\<in>set (prettyBeat fm (parseInputs req)). isWordOrHyphen c \<or> c = CHR ''.''"
    using s e hz by (auto simp: prettyBeat_form[OF se(1,2)])
  then show ?thesis by (rule replaceDots_word)
qed

lemma minutes_form:
  "\<exists>q. js_div (resolveDuration probe req) (Fin 60) = Fin q \<and> 0 \<le> q \<and> q \<le> 128
       \<and> numToString fm (Math_round (js_div (resolveDuration probe req) (Fin 60)))
           = natToString (nat \<lfloor>q + 1 / 2\<rfloor>)"
proof -
  obtain d where d: "resolveDuration probe req = Fin d" "60 \<le> d" "d \<le> 7200"
    using duration_range[of probe req] by auto
  have "0 \<le> d / 60" "d / 60 \<le> 2 ^ 7" using d by simp_all
  then obtain q where q: "round64 (d / 60) = Fin q" "0 \<le> q" "q \<le> 2 ^ 7"
    using round64_bounded[of "d / 60" 7] by auto
  define m where "m = \<lfloor>q + 1 / 2\<rfloor>"
  have m0: "0 \<le> m" using q by (simp add: m_def)
  have "q + 1 / 2 < 129" using q by simp
  then have "m < 129" unfolding m_def by (simp add: floor_less_iff)
  then have "\<bar>rat_of_int m\<bar> < 2 ^ 53" using m0 by simp
  then have "numToString fm (Fin (of_int m)) = natToString (nat m)"
    using m0 by (simp add: numToString_def intToString_def)
  then show ?thesis using d q by (auto simp: m_def)
qed

text \<open>
  Claim C5. The beat descriptor is the end beat with two decimals and \<open>Hz\<close> when the
  two resolved beats are equal, and otherwise start, a hyphen, end, each with two
  decimals, and \<open>Hz\<close>; 14 prints as \<open>14.00\<close> and 18 as \<open>18.00\<close>. The file name is
  the hint or label, \<open>_\<close>, the descriptor with every \<open>.\<close> replaced by \<open>p\<close>, \<open>_\<close>,
  the duration divided by 60 and rounded, \<open>min_\<close>, the unique identifier, \<open>.wav\<close>;
  the hint or label being the hint without every character outside \<open>[A-Za-z0-9_-]\<close>,
  cut to 40 characters, when that is not empty, and the band label otherwise.
\<close>

theorem file_name_format:
  fixes fm :: "rat \<Rightarrow> string" and probe :: "string \<Rightarrow> probe_run" and req :: request
    and uuid :: string and fh :: "string option"
  defines "inp \<equiv> parseInputs req"
  defines "dur \<equiv> resolveDuration probe req"
  shows "(\<exists>s e. beatStart inp = Fin s \<and> beatEnd inp = Fin e
            \<and> prettyBeat fm inp =
                (if s = e then toFixed2 fm (Fin e) @ ''Hz''
                 else toFixed2 fm (Fin s) @ ''-'' @ toFixed2 fm (Fin e) @ ''Hz'')
            \<and> toFixed2 fm (Fin s) =
                natToString (nat \<lfloor>s * 100 + 1 / 2\<rfloor> div 100) @ ''.''
                  @ [digitChar (nat \<lfloor>s * 100 + 1 / 2\<rfloor> mod 100 div 10),
                     digitChar (nat \<lfloor>s * 100 + 1 / 2\<rfloor> mod 10)]
            \<and> toFixed2 fm (Fin e) =
                natToString (nat \<lfloor>e * 100 + 1 / 2\<rfloor> div 100) @ ''.''
                  @ [digitChar (nat \<lfloor>e * 100 + 1 / 2\<rfloor> mod 100 div 10),
                     digitChar (nat \<lfloor>e * 100 + 1 / 2\<rfloor> mod 10)])
    \<and> toFixed2 fm (Fin 14) = ''14.00'' \<and> toFixed2 fm (Fin 18) = ''18.00''
    \<and> (\<exists>q. js_div dur (Fin 60) = Fin q
          \<and> filename fm uuid fh inp dur =
              (let h = take 40 (filter isWordOrHyphen (case fh of None \<Rightarrow> [] | Some s \<Rightarrow> s))
               in if h = [] then label inp else h)
              @ ''_'' @ map (\<lambda>c. if c = CHR ''.'' then CHR ''p'' else c) (prettyBeat fm inp)
              @ ''_'' @ natToString (nat \<lfloor>q + 1 / 2\<rfloor>) @ ''min_'' @ uuid @ ''.wav'')"
proof -
  obtain s e where se: "beatStart inp = Fin s" "beatEnd inp = Fin e"
      "0 \<le> s" "s \<le> 40" "0 \<le> e" "e \<le> 40"
    using beats_range[of req] by (auto simp: inp_def)
  have s: "0 \<le> s" "s < 10 ^ 21" and e: "0 \<le> e" "e < 10 ^ 21" using se by simp_all
  have first: "\<exists>s e. beatStart inp = Fin s \<and> beatEnd inp = Fin e
            \<and> prettyBeat fm inp =
                (if s = e then toFixed2 fm (Fin e) @ ''Hz''
                 else toFixed2 fm (Fin s) @ ''-'' @ toFixed2 fm (Fin e) @ ''Hz'')
            \<and> toFixed2 fm (Fin s) =
                natToString (nat \<lfloor>s * 100 + 1 / 2\<rfloor> div 100) @ ''.''
                  @ [digitChar (nat \<lfloor>s * 100 + 1 / 2\<rfloor> mod 100 div 10),
                     digitChar (nat \<lfloor>s * 100 + 1 / 2\<rfloor> mod 10)]
            \<and> toFixed2 fm (Fin e) =
                natToString (nat \<lfloor>e * 100 + 1 / 2\<rfloor> div 100) @ ''.''
                  @ [digitChar (nat \<lfloor>e * 100 + 1 / 2\<rfloor> mod 100 div 10),
                     digitChar (nat \<lfloor>e * 100 + 1 / 2\<rfloor> mod 10)]"
    using se(1,2) prettyBeat_form[OF se(1,2), of fm] toFixed2_nonneg[OF s, of fm]
      toFixed2_nonneg[OF e, of fm]
    by blast
  obtain q where q: "js_div dur (Fin 60) = Fin q"
      "numToString fm (Math_round (js_div dur (Fin 60))) = natToString (nat \<lfloor>q + 1 / 2\<rfloor>)"
    using minutes_form[of probe req fm] by (auto simp: dur_def)
  have third: "\<exists>q. js_div dur (Fin 60) = Fin q
          \<and> filename fm uuid fh inp dur =
              (let h = take 40 (filter isWordOrHyphen (case fh of None \<Rightarrow> [] | Some s \<Rightarrow> s))
               in if h = [] then label inp else h)
              @ ''_'' @ map (\<lambda>c. if c = CHR ''.'' then CHR ''p'' else c) (prettyBeat fm inp)
              @ ''_'' @ natToString (nat \<lfloor>q + 1 / 2\<rfloor>) @ ''min_'' @ uuid @ ''.wav''"
    using q by (simp add: filename_def label_def hint_form replaceDots_def)
  show ?thesis using first third by (simp add: toFixed2_14 toFixed2_18)
qed

theorem file_name_format_witness:
  "filename (\<lambda>_. []) ''u1'' (Some ''Beta Focus!'')
     (parseInputs \<lparr>req_body = [''beatStart'' \<mapsto> ''14'', ''beatEnd'' \<mapsto> ''18'',
                                ''durationSec'' \<mapsto> ''600''], req_file = None\<rparr>)
     (resolveDuration (\<lambda>_. ProbeError [])
        \<lparr>req_body = [''beatStart'' \<mapsto> ''14'', ''beatEnd'' \<mapsto> ''18'',
                     ''durationSec'' \<mapsto> ''600''], req_file = None\<rparr>)
   = ''BetaFocus_14p00-18p00Hz_10min_u1.wav''
   \<and> filename (\<lambda>_. []) ''u2'' None
       (parseInputs \<lparr>req_body = [''beatStart'' \<mapsto> ''8'', ''beatEnd'' \<mapsto> ''8''], req_file = None\<rparr>)
       (resolveDuration (\<lambda>_. ProbeError [])
          \<lparr>req_body = [''beatStart'' \<mapsto> ''8'', ''beatEnd'' \<mapsto> ''8''], req_file = None\<rparr>)
     = ''Alpha_8p00Hz_30min_u2.wav''"
proof -
  have a: "filename (\<lambda>_. []) ''u1'' (Some ''Beta Focus!'')
       (parseInputs \<lparr>req_body = [''beatStart'' \<mapsto> ''14'', ''beatEnd'' \<mapsto> ''18'',
                                  ''durationSec'' \<mapsto> ''600''], req_file = None\<rparr>)
       (resolveDuration (\<lambda>_. ProbeError [])
          \<lparr>req_body = [''beatStart'' \<mapsto> ''14'', ''beatEnd'' \<mapsto> ''18'',
                       ''durationSec'' \<mapsto> ''600''], req_file = None\<rparr>)
     = ''BetaFocus_14p00-18p00Hz_10min_u1.wav''"
  proof -
    let ?r = "\<lparr>req_body = [''beatStart'' \<mapsto> ''14'', ''beatEnd'' \<mapsto> ''18'',
                              ''durationSec'' \<mapsto> ''600''], req_file = None\<rparr>"
    let ?p = "\<lambda>_::string. ProbeError []"
    let ?fm = "\<lambda>_::rat. []::string"
    have bs: "beatStart (parseInputs ?r) = Fin 14" and be: "beatEnd (parseInputs ?r) = Fin 18"
      by (simp_all add: parseInputs_def num_Fin scan_defs)
    have "Number_js (req_body ?r ''durationSec'') = Fin 600" by (simp add: scan_defs)
    then have dur: "resolveDuration ?p ?r = Fin 600" by (simp add: resolveDuration_explicit)
    have q: "js_div (Fin 600) (Fin 60) = Fin 10" by (simp add: round64_numeral)
    have fl: "nat \<lfloor>(10::rat) + 1 / 2\<rfloor> = 10"
    proof -
      have "\<lfloor>(10::rat) + 1 / 2\<rfloor> = 10" by (simp add: floor_eq_iff)
      then show ?thesis by simp
    qed
    have h: "take 40 (filter isWordOrHyphen ''Beta Focus!'') = ''BetaFocus''"
      by (simp add: isWordOrHyphen_def)
    from file_name_format[where fm = ?fm and req = ?r and probe = ?p and uuid = "''u1''"
        and fh = "Some ''Beta Focus!''"]
    obtain s e q where f:
      "beatStart (parseInputs ?r) = Fin s" "beatEnd (parseInputs ?r) = Fin e"
      "prettyBeat ?fm (parseInputs ?r) =
         (if s = e then toFixed2 ?fm (Fin e) @ ''Hz''
          else toFixed2 ?fm (Fin s) @ ''-'' @ toFixed2 ?fm (Fin e) @ ''Hz'')"
      "toFixed2 ?fm (Fin 14) = ''14.00''" "toFixed2 ?fm (Fin 18) = ''18.00''"
      "js_div (resolveDuration ?p ?r) (Fin 60) = Fin q"
      "filename ?fm ''u1'' (Some ''Beta Focus!'') (parseInputs ?r) (resolveDuration ?p ?r) =
         (let h = take 40 (filter isWordOrHyphen (case Some ''Beta Focus!'' of None \<Rightarrow> [] | Some s \<Rightarrow> s))
          in if h = [] then label (parseInputs ?r) else h)
         @ ''_'' @ map (\<lambda>c. if c = CHR ''.'' then CHR ''p'' else c) (prettyBeat ?fm (parseInputs ?r))
         @ ''_'' @ natToString (nat \<lfloor>q + 1 / 2\<rfloor>) @ ''min_'' @ ''u1'' @ ''.wav''"
      by blast
    have s: "s = 14" and e: "e = 18" using f(1,2) bs be by simp_all
    have q10: "q = 10" using f(6) dur q by simp
    have pb: "prettyBeat ?fm (parseInputs ?r) = ''14.00-18.00Hz''"
      using f(3) f(4) f(5) s e by simp
    show ?thesis
      unfolding f(7) pb q10 fl
      by (simp only: option.case h Let_def) (simp add: natToString_two digitChar_def)
  qed
  have b: "filename (\<lambda>_. []) ''u2'' None
       (parseInputs \<lparr>req_body = [''beatStart'' \<mapsto> ''8'', ''beatEnd'' \<mapsto> ''8''], req_file = None\<rparr>)
       (resolveDuration (\<lambda>_. ProbeError [])
          \<lparr>req_body = [''beatStart'' \<mapsto> ''8'', ''beatEnd'' \<mapsto> ''8''], req_file = None\<rparr>)
     = ''Alpha_8p00Hz_30min_u2.wav''"
  proof -
    let ?r = "\<lparr>req_body = [''beatStart'' \<mapsto> ''8'', ''beatEnd'' \<mapsto> ''8''], req_file = None\<rparr>"
    let ?p = "\<lambda>_::string. ProbeError []"
    let ?fm = "\<lambda>_::rat. []::string"
    have bs: "beatStart (parseInputs ?r) = Fin 8" and be: "beatEnd (parseInputs ?r) = Fin 8"
      by (simp_all add: parseInputs_def num_Fin scan_defs)
    have lb: "label (parseInputs ?r) = ''Alpha''"
      by (simp add: label_def avgBeat_def bs be round64_numeral bandLabel_Fin)
    have "\<not> isFinite (Number_js (req_body ?r ''durationSec''))" by (simp add: Number_js_def)
    then have dur: "resolveDuration ?p ?r = Fin 1800" by (simp add: resolveDuration_no_music)
    have q: "js_div (Fin 1800) (Fin 60) = Fin 30" by (simp add: round64_numeral)
    have fl: "nat \<lfloor>(30::rat) + 1 / 2\<rfloor> = 30"
    proof -
      have "\<lfloor>(30::rat) + 1 / 2\<rfloor> = 30" by (simp add: floor_eq_iff)
      then show ?thesis by simp
    qed
    from file_name_format[where fm = ?fm and req = ?r and probe = ?p and uuid = "''u2''"
        and fh = None]
    obtain s e q where f:
      "beatStart (parseInputs ?r) = Fin s" "beatEnd (parseInputs ?r) = Fin e"
      "prettyBeat ?fm (parseInputs ?r) =
         (if s = e then toFixed2 ?fm (Fin e) @ ''Hz''
          else toFixed2 ?fm (Fin s) @ ''-'' @ toFixed2 ?fm (Fin e) @ ''Hz'')"
      "js_div (resolveDuration ?p ?r) (Fin 60) = Fin q"
      "filename ?fm ''u2'' None (parseInputs ?r) (resolveDuration ?p ?r) =
         (let h = take 40 (filter isWordOrHyphen (case None of None \<Rightarrow> [] | Some s \<Rightarrow> s))
          in if h = [] then label (parseInputs ?r) else h)
         @ ''_'' @ map (\<lambda>c. if c = CHR ''.'' then CHR ''p'' else c) (prettyBeat ?fm (parseInputs ?r))
         @ ''_'' @ natToString (nat \<lfloor>q + 1 / 2\<rfloor>) @ ''min_'' @ ''u2'' @ ''.wav''"
      by blast
    have s: "s = 8" and e: "e = 8" using f(1,2) bs be by simp_all
    have q30: "q = 30" using f(4) dur q by simp
    have pb: "prettyBeat ?fm (parseInputs ?r) = ''8.00Hz''"
      using f(3) s e by (simp add: toFixed2_8)
    show ?thesis
      unfolding f(5) pb q30 fl lb
      by (simp add: natToString_two digitChar_def)
  qed
  show ?thesis using a b by (rule conjI)
qed

lemma count_dot_word: "list_all isWordOrHyphen s \<Longrightarrow> count_list s (CHR ''.'') = 0"
  by (induction s) (auto simp: isWordOrHyphen_def)

lemma word_not_special:
  assumes "isWordOrHyphen c"
  shows "c \<noteq> CHR 0x22 \<and> c \<noteq> CHR ''/'' \<and> c \<noteq> CHR 0x5C \<and> c \<noteq> CHR ''.'' \<and> \<not> isWhiteSpace c"
  using assms by (auto simp: isWordOrHyphen_def isWhiteSpace_def)

lemma filename_stem_word:
  assumes "list_all isWordOrHyphen uuid"
  shows "\<exists>stem. filename fm uuid fh (parseInputs req) (resolveDuration probe req) = stem @ ''.wav''
           \<and> list_all isWordOrHyphen stem"
proof -
  obtain q :: rat where q:
      "numToString fm (Math_round (js_div (resolveDuration probe req) (Fin 60)))
         = natToString (nat \<lfloor>q + 1 / 2\<rfloor>)"
    using minutes_form[of probe req fm] by blast
  define stem where "stem = hint fh (label (parseInputs req)) @ ''_''
       @ replaceDots (prettyBeat fm (parseInputs req)) @ ''_''
       @ natToString (nat \<lfloor>q + 1 / 2\<rfloor>) @ ''min_'' @ uuid"
  have us: "isWordOrHyphen (CHR ''_'')" "list_all isWordOrHyphen ''min_''"
    by (simp_all add: isWordOrHyphen_def)
  have "list_all isWordOrHyphen stem"
    unfolding stem_def label_def
    using assms us by (simp add: hint_word prettyBeat_word natToString_word)
  moreover have "filename fm uuid fh (parseInputs req) (resolveDuration probe req) = stem @ ''.wav''"
    by (simp add: filename_def stem_def q)
  ultimately show ?thesis by blast
qed

text \<open>
  Claim C9. Whatever the \<open>filenameHint\<close> field holds, and whatever the other fields
  hold, the file name is a stem of characters from \<open>[A-Za-z0-9_-]\<close> followed by
  \<open>.wav\<close>, given that the unique identifier is made of such characters (a version 4
  UUID is hexadecimal digits and hyphens). So the stem has no double quote, no slash, no
  backslash, no dot and no white space, the name has exactly one dot, and the
  \<open>Content-Disposition\<close> value is the fixed text, a quote, the stem, \<open>.wav\<close>, a quote.
\<close>

theorem filename_safe:
  assumes "\<forall>c\<in>set uuid. isWordOrHyphen c"
  shows "\<exists>stem. filename fm uuid fh (parseInputs req) (resolveDuration probe req) = stem @ ''.wav''
           \<and> (\<forall>c\<in>set stem. isWordOrHyphen c
                  \<and> c \<noteq> CHR 0x22 \<and> c \<noteq> CHR ''/'' \<and> c \<noteq> CHR 0x5C \<and> c \<noteq> CHR ''.''
                  \<and> \<not> isWhiteSpace c)
           \<and> count_list (filename fm uuid fh (parseInputs req) (resolveDuration probe req))
                (CHR ''.'') = 1
           \<and> contentDisposition (filename fm uuid fh (parseInputs req) (resolveDuration probe req))
               = ''attachment; filename='' @ [CHR 0x22] @ stem @ ''.wav'' @ [CHR 0x22]"
proof -
  have "list_all isWordOrHyphen uuid" using assms by (simp add: list_all_iff)
  then obtain stem where st:
      "filename fm uuid fh (parseInputs req) (resolveDuration probe req) = stem @ ''.wav''"
      "list_all isWordOrHyphen stem"
    using filename_stem_word[of uuid fm fh req probe] by blast
  have a: "\<forall>c\<in>set stem. isWordOrHyphen c
                  \<and> c \<noteq> CHR 0x22 \<and> c \<noteq> CHR ''/'' \<and> c \<noteq> CHR 0x5C \<and> c \<noteq> CHR ''.''
                  \<and> \<not> isWhiteSpace c"
    using st(2) word_not_special by (auto simp: list_all_iff)
  have b: "count_list (stem @ ''.wav'') (CHR ''.'') = 1"
    using count_dot_word[OF st(2)] by simp
  show ?thesis using st(1) a b by (auto simp: contentDisposition_def)
qed

theorem filename_safe_witness:
  "count_list
     (filename (\<lambda>_. []) ''123e4567-e89b-42d3-a456-426614174000''
        (Some (''a'' @ [CHR 0x22] @ ''; b/../c.d''))
        (parseInputs \<lparr>req_body = Map.empty, req_file = None\<rparr>)
        (resolveDuration (\<lambda>_. ProbeError []) \<lparr>req_body = Map.empty, req_file = None\<rparr>))
     (CHR ''.'') = 1"
proof -
  have u: "\<forall>c\<in>set ''123e4567-e89b-42d3-a456-426614174000''. isWordOrHyphen c"
    by (simp add: isWordOrHyphen_def)
  show ?thesis using filename_safe[OF u] by blast
qed

section \<open>The filter graph and the plan\<close>

text \<open>
  Claim C6. The filter graph ends with the limiter stage \<open>alimiter=limit=0.95[out]\<close>,
  with music and without. With music it is the music chain into \<open>[m]\<close>, the tone chain
  into \<open>[t]\<close>, the two summed by \<open>amix=inputs=2:normalize=0\<close> into \<open>[mix]\<close>, and
  the limiter on \<open>[mix]\<close>; without music it is the tone chain into \<open>[t]\<close> and the
  limiter on \<open>[t]\<close>. The renderer receives this graph as its \<open>-filter_complex\<close>
  argument and maps \<open>[out]\<close>.
\<close>

theorem filter_graph_limiter:
  "suffix ''alimiter=limit=0.95[out]'' (filterComplex fm music inp dur)
   \<and> filterComplex fm True inp dur
       = ''[0:a]'' @ musicFilters fm inp dur @ ''[m];''
         @ ''[1:a]'' @ toneFilters fm inp dur @ ''[t];''
         @ ''[m][t]amix=inputs=2:normalize=0:dropout_transition=0[mix];''
         @ ''[mix]alimiter=limit=0.95[out]''
   \<and> filterComplex fm False inp dur
       = ''[0:a]'' @ toneFilters fm inp dur @ ''[t];'' @ ''[t]alimiter=limit=0.95[out]''
   \<and> (\<exists>pre post. args (generate e req)
         = pre @ [''-filter_complex'',
                  filterComplex (fmt e) (hasMusic req) (parseInputs req)
                    (resolveDuration (ffprobe e) req),
                  ''-map'', ''[out]''] @ post)"
proof -
  have t: "filterComplex fm True inp dur
       = (''[0:a]'' @ musicFilters fm inp dur @ ''[m];''
         @ ''[1:a]'' @ toneFilters fm inp dur @ ''[t];''
         @ ''[m][t]amix=inputs=2:normalize=0:dropout_transition=0[mix];''
         @ ''[mix]'') @ ''alimiter=limit=0.95[out]''"
    by (simp add: filterComplex_def)
  have f: "filterComplex fm False inp dur
       = (''[0:a]'' @ toneFilters fm inp dur @ ''[t];'' @ ''[t]'') @ ''alimiter=limit=0.95[out]''"
    by (simp add: filterComplex_def)
  have s: "suffix ''alimiter=limit=0.95[out]'' (filterComplex fm music inp dur)"
    by (cases music) (simp_all only: t f suffix_appendI suffix_order.refl)
  have a: "\<exists>pre post. args (generate e req)
         = pre @ [''-filter_complex'',
                  filterComplex (fmt e) (hasMusic req) (parseInputs req)
                    (resolveDuration (ffprobe e) req),
                  ''-map'', ''[out]''] @ post"
    unfolding generate_def Let_def ffmpegArgs_def hasMusic_def
    by (rule exI[of _ "[''-hide_banner'', ''-loglevel'', ''error'']
          @ (case req_file req of Some u \<Rightarrow> [''-stream_loop'', ''-1'', ''-i'', path u] | None \<Rightarrow> [])
          @ [''-f'', ''lavfi'', ''-i'',
             toneGen (fmt e) (parseInputs req) (resolveDuration (ffprobe e) req)]"],
        rule exI[of _ "[''-ar'', numToString (fmt e) sr, ''-ac'', ''2'', ''-c:a'', ''pcm_s24le'',
             ''-f'', ''wav'', ''pipe:1'']"]) simp
  show ?thesis using s a by (simp add: filterComplex_def)
qed

text \<open>
  Claim C10. Two requests whose resolved fields, uploaded file and resolved duration are
  the same, handled with the same number printing, give the same tone generator, the
  same filter graph, the same renderer arguments and the same \<open>X-\<close> headers, whatever
  their raw fields, hints and identifiers are. The identifier enters the response only
  as the segment of the file name between a stem that does not depend on it
  and \<open>.wav\<close>.
\<close>

theorem plan_deterministic:
  assumes "parseInputs r1 = parseInputs r2" "req_file r1 = req_file r2"
    "resolveDuration (ffprobe e1) r1 = resolveDuration (ffprobe e2) r2" "fmt e1 = fmt e2"
  shows "args (generate e1 r1) = args (generate e2 r2)
    \<and> toneGen (fmt e1) (parseInputs r1) (resolveDuration (ffprobe e1) r1)
        = toneGen (fmt e2) (parseInputs r2) (resolveDuration (ffprobe e2) r2)
    \<and> filterComplex (fmt e1) (hasMusic r1) (parseInputs r1) (resolveDuration (ffprobe e1) r1)
        = filterComplex (fmt e2) (hasMusic r2) (parseInputs r2) (resolveDuration (ffprobe e2) r2)
    \<and> filter (\<lambda>h. prefix ''X-'' (fst h)) (headers (generate e1 r1))
        = filter (\<lambda>h. prefix ''X-'' (fst h)) (headers (generate e2 r2))
    \<and> filter (\<lambda>h. prefix ''X-'' (fst h)) (headers (generate e1 r1))
        = metaHeaders (fmt e1) (parseInputs r1) (resolveDuration (ffprobe e1) r1)
    \<and> (\<exists>stem. \<forall>u. headers (generate (e1\<lparr>uuidv4 := u\<rparr>) r1)
          = [(''Content-Type'', ''audio/wav''),
             (''Content-Disposition'', contentDisposition (stem @ u @ ''.wav''))]
            @ metaHeaders (fmt e1) (parseInputs r1) (resolveDuration (ffprobe e1) r1))"
proof -
  have x: "filter (\<lambda>h. prefix ''X-'' (fst h)) (headers (generate e r))
        = metaHeaders (fmt e) (parseInputs r) (resolveDuration (ffprobe e) r)" for e r
    by (simp add: generate_def Let_def metaHeaders_def)
  have st: "\<exists>stem. \<forall>u. headers (generate (e1\<lparr>uuidv4 := u\<rparr>) r1)
          = [(''Content-Type'', ''audio/wav''),
             (''Content-Disposition'', contentDisposition (stem @ u @ ''.wav''))]
            @ metaHeaders (fmt e1) (parseInputs r1) (resolveDuration (ffprobe e1) r1)"
    by (rule exI[of _ "hint (req_body r1 ''filenameHint'') (label (parseInputs r1)) @ ''_''
          @ replaceDots (prettyBeat (fmt e1) (parseInputs r1)) @ ''_''
          @ numToString (fmt e1) (Math_round (js_div (resolveDuration (ffprobe e1) r1) (Fin 60)))
          @ ''min_''"])
       (simp add: generate_def Let_def filename_def)
  have a: "args (generate e1 r1) = args (generate e2 r2)"
    using assms by (simp add: generate_def Let_def)
  show ?thesis using assms a x st by (simp add: hasMusic_def)
qed

theorem plan_deterministic_witness:
  "args (generate \<lparr>fmt = \<lambda>_. [], ffprobe = \<lambda>_. ProbeError [], uuidv4 = ''a1''\<rparr>
           \<lparr>req_body = [''carrier'' \<mapsto> ''5000'', ''filenameHint'' \<mapsto> ''one''], req_file = None\<rparr>)
   = args (generate \<lparr>fmt = \<lambda>_. [], ffprobe = \<lambda>_. ProbeClose (Some 0) ''12'' [], uuidv4 = ''b2''\<rparr>
           \<lparr>req_body = [''carrier'' \<mapsto> ''1000''], req_file = None\<rparr>)"
proof -
  let ?e1 = "\<lparr>fmt = \<lambda>_::rat. []::string, ffprobe = \<lambda>_::string. ProbeError [], uuidv4 = ''a1''\<rparr>"
  let ?e2 = "\<lparr>fmt = \<lambda>_::rat. []::string, ffprobe = \<lambda>_::string. ProbeClose (Some 0) ''12'' [],
              uuidv4 = ''b2''\<rparr>"
  let ?r1 = "\<lparr>req_body = [''carrier'' \<mapsto> ''5000'', ''filenameHint'' \<mapsto> ''one''], req_file = None\<rparr>"
  let ?r2 = "\<lparr>req_body = [''carrier'' \<mapsto> ''1000''], req_file = None\<rparr>"
  have n5: "Number_js (Some ''5000'') = Fin 5000" and n1: "Number_js (Some ''1000'') = Fin 1000"
    and nn: "Number_js None = NaN"
    by (simp_all add: scan_defs)
  have p: "parseInputs ?r1 = parseInputs ?r2"
    by (simp add: parseInputs_def num_Fin n5 n1 nn)
  have d: "resolveDuration (ffprobe ?e1) ?r1 = resolveDuration (ffprobe ?e2) ?r2"
    by (simp add: resolveDuration_no_music nn)
  have f: "req_file ?r1 = req_file ?r2" "fmt ?e1 = fmt ?e2" by simp_all
  show ?thesis using plan_deterministic[OF p f(1) d f(2)] by blast
qed

section \<open>Cleanup and failure responses\<close>

lemma cleanup_fields:
  "rmCalls (cleanup s) = rmCalls s @ uploadPath (upfile s)"
  "killCalls (cleanup s) = killCalls s" "upfile (cleanup s) = upfile s"
  "headersSent (cleanup s) = headersSent s" "wrote (cleanup s) = wrote s"
  "stderr (cleanup s) = stderr s" "ended (cleanup s) = ended s" "piped (cleanup s) = piped s"
  by (simp_all add: cleanup_def uploadPath_def split: option.splits)

lemma step_upfile: "upfile (step e s) = upfile s"
  by (cases e) (simp_all add: abort_def cleanup_fields unpipe_def pipeData_def pipeEnd_def json500_def Let_def)

lemma step_killCalls:
  "killCalls (step e s) = killCalls s + (if isAbortSignal e then 1 else 0)"
  by (cases e) (simp_all add: abort_def cleanup_fields unpipe_def pipeData_def pipeEnd_def json500_def Let_def)

lemma step_rmCalls:
  "rmCalls (step e s) =
     rmCalls s @ (if isAbortSignal e \<or> isProcessEnd e then uploadPath (upfile s) else [])"
  by (cases e) (simp_all add: abort_def cleanup_fields unpipe_def pipeData_def pipeEnd_def json500_def Let_def)

lemma run_Nil: "run [] s = s" and run_Cons: "run (e # evs) s = run evs (step e s)"
  by (simp_all add: run_def)

lemma run_snoc: "run (evs @ [e]) s = step e (run evs s)"
  by (simp add: run_def)

lemma run_upfile: "upfile (run evs s) = upfile s"
  by (induction evs arbitrary: s) (simp_all add: run_Nil run_Cons step_upfile)

lemma run_killCalls:
  "killCalls (run evs s) = killCalls s + length (filter isAbortSignal evs)"
  by (induction evs arbitrary: s) (simp_all add: run_Nil run_Cons step_killCalls)

lemma run_rmCalls:
  "rmCalls (run evs s) =
     rmCalls s
     @ concat (replicate (length (filter (\<lambda>e. isAbortSignal e \<or> isProcessEnd e) evs))
                 (uploadPath (upfile s)))"
  by (induction evs arbitrary: s) (simp_all add: run_Nil run_Cons step_rmCalls step_upfile)

lemma rmForce_removes: "p \<in> set ps \<Longrightarrow> p \<notin> rmForce ps files"
proof -
  have "rmForce ps files = files - set ps" for ps
    unfolding rmForce_def by (induction ps arbitrary: files) auto
  then show "p \<in> set ps \<Longrightarrow> p \<notin> rmForce ps files" by simp
qed

lemma concat_replicate_single: "concat (replicate m [p]) = replicate m p"
  by (induction m) simp_all

text \<open>
  Claim C7, as stated: after a client abort there is exactly one deletion attempt and
  exactly one termination attempt, however many signals arrive. The handlers carry no
  guard: when the response closes and the killed renderer then closes, \<open>fs.rm\<close> is
  called twice; when the response reports an error before it closes, \<open>ff.kill\<close> is
  called twice and \<open>fs.rm\<close> three times.
\<close>

theorem cleanup_twice_counterexample:
  "rmCalls (run [ResClose, FfClose None] (spawned (Some \<lparr>path = ''uploads/u1''\<rparr>)))
     = [''uploads/u1'', ''uploads/u1'']
   \<and> killCalls (run [ResError, ResClose, FfClose None] (spawned (Some \<lparr>path = ''uploads/u1''\<rparr>)))
     = 2
   \<and> rmCalls (run [ResError, ResClose, FfClose None] (spawned (Some \<lparr>path = ''uploads/u1''\<rparr>)))
     = [''uploads/u1'', ''uploads/u1'', ''uploads/u1'']"
  by (simp add: run_def spawned_def abort_def cleanup_def unpipe_def json500_def)

text \<open>
  Claim C7, amended. Every response close or error makes one termination attempt and
  one call of \<open>cleanup\<close>; every close or error of the renderer makes one more call of
  \<open>cleanup\<close>; a call of \<open>cleanup\<close> makes one forced deletion attempt of the uploaded
  file when there is one, and none otherwise. So after a client abort there is at least
  one termination attempt and, with an upload, at least one deletion attempt, all of
  them for the path of the upload, and the file is gone afterwards.
\<close>

theorem cleanup_per_signal:
  "killCalls (run evs (spawned f)) = length (filter isAbortSignal evs)
   \<and> rmCalls (run evs (spawned f))
       = concat (replicate (length (filter (\<lambda>e. isAbortSignal e \<or> isProcessEnd e) evs))
                   (uploadPath f))
   \<and> ((\<exists>e\<in>set evs. isAbortSignal e) \<longrightarrow>
         1 \<le> killCalls (run evs (spawned f))
         \<and> (\<forall>u. f = Some u \<and> path u \<noteq> [] \<longrightarrow>
               1 \<le> length (rmCalls (run evs (spawned f)))
               \<and> set (rmCalls (run evs (spawned f))) = {path u}
               \<and> path u \<notin> rmForce (rmCalls (run evs (spawned f))) files))
   \<and> (f = None \<longrightarrow> rmCalls (run evs (spawned f)) = [])"
proof -
  have k: "killCalls (run evs (spawned f)) = length (filter isAbortSignal evs)"
    by (simp add: run_killCalls spawned_def)
  have r: "rmCalls (run evs (spawned f))
       = concat (replicate (length (filter (\<lambda>e. isAbortSignal e \<or> isProcessEnd e) evs))
                   (uploadPath f))"
    by (simp add: run_rmCalls spawned_def)
  have n: "f = None \<longrightarrow> rmCalls (run evs (spawned f)) = []"
    using r by (auto simp: uploadPath_def)
  have a: "(\<exists>e\<in>set evs. isAbortSignal e) \<longrightarrow>
         1 \<le> killCalls (run evs (spawned f))
         \<and> (\<forall>u. f = Some u \<and> path u \<noteq> [] \<longrightarrow>
               1 \<le> length (rmCalls (run evs (spawned f)))
               \<and> set (rmCalls (run evs (spawned f))) = {path u}
               \<and> path u \<notin> rmForce (rmCalls (run evs (spawned f))) files)"
  proof (intro impI conjI allI)
    assume ex: "\<exists>e\<in>set evs. isAbortSignal e"
    then have "filter isAbortSignal evs \<noteq> []" by (simp add: filter_empty_conv)
    then show "1 \<le> killCalls (run evs (spawned f))"
      unfolding k by (cases "filter isAbortSignal evs") simp_all
    fix u assume u: "f = Some u \<and> path u \<noteq> []"
    define m where "m = length (filter (\<lambda>e. isAbortSignal e \<or> isProcessEnd e) evs)"
    from ex have "filter (\<lambda>e. isAbortSignal e \<or> isProcessEnd e) evs \<noteq> []"
      by (auto simp: filter_empty_conv)
    then have m: "0 < m" by (simp add: m_def)
    have up: "uploadPath f = [path u]" using u by (simp add: uploadPath_def)
    have rm: "rmCalls (run evs (spawned f)) = replicate m (path u)"
      unfolding r m_def[symmetric] up by (rule concat_replicate_single)
    show "1 \<le> length (rmCalls (run evs (spawned f)))" using m by (simp add: rm)
    show s: "set (rmCalls (run evs (spawned f))) = {path u}" using m by (simp add: rm)
    show "path u \<notin> rmForce (rmCalls (run evs (spawned f))) files"
      by (rule rmForce_removes) (simp add: s)
  qed
  show ?thesis using k r a n by blast
qed

theorem cleanup_per_signal_witness:
  "1 \<le> killCalls (run [ResClose, FfClose None] (spawned (Some \<lparr>path = ''uploads/u1''\<rparr>)))
   \<and> 1 \<le> length (rmCalls (run [ResClose, FfClose None] (spawned (Some \<lparr>path = ''uploads/u1''\<rparr>))))
   \<and> ''uploads/u1'' \<notin>
        rmForce (rmCalls (run [ResClose, FfClose None] (spawned (Some \<lparr>path = ''uploads/u1''\<rparr>))))
          {''uploads/u1''}"
proof -
  let ?u = "\<lparr>path = ''uploads/u1''\<rparr>"
  let ?s = "run [ResClose, FfClose None] (spawned (Some ?u))"
  have ex: "\<exists>e\<in>set [ResClose, FfClose None]. isAbortSignal e" by simp
  have p: "Some ?u = Some ?u \<and> path ?u \<noteq> []" by simp
  have k: "1 \<le> killCalls ?s"
    and r: "\<forall>u. Some ?u = Some u \<and> path u \<noteq> [] \<longrightarrow>
               1 \<le> length (rmCalls ?s) \<and> set (rmCalls ?s) = {path u}
               \<and> path u \<notin> rmForce (rmCalls ?s) {''uploads/u1''}"
    using cleanup_per_signal[of "[ResClose, FfClose None]" "Some ?u" "{''uploads/u1''}"] ex
    by blast+
  from r p have "1 \<le> length (rmCalls ?s) \<and> set (rmCalls ?s) = {path ?u}
               \<and> path ?u \<notin> rmForce (rmCalls ?s) {''uploads/u1''}"
    by blast
  then have "1 \<le> length (rmCalls ?s)" "''uploads/u1'' \<notin> rmForce (rmCalls ?s) {''uploads/u1''}"
    by simp_all
  with k show ?thesis by blast
qed

lemma step_headers_inv:
  assumes "headersSent s = (wrote s \<noteq> [])"
  shows "headersSent (step e s) = (wrote (step e s) \<noteq> [])"
  using assms
  by (cases e) (auto simp: abort_def cleanup_fields unpipe_def pipeData_def pipeEnd_def json500_def Let_def)

lemma run_headers_inv:
  assumes "headersSent s = (wrote s \<noteq> [])"
  shows "headersSent (run evs s) = (wrote (run evs s) \<noteq> [])"
  using assms
proof (induction evs arbitrary: s)
  case Nil
  then show ?case by (simp add: run_Nil)
next
  case (Cons e evs)
  show ?case unfolding run_Cons by (rule Cons.IH) (rule step_headers_inv, rule Cons.prems)
qed

lemma spawned_headers_inv:
  "headersSent (run evs (spawned f)) = (wrote (run evs (spawned f)) \<noteq> [])"
  by (rule run_headers_inv) (simp add: spawned_def)

lemma step_stderr:
  "stderr (step e s) = stderr s @ (case e of FfStderrData d \<Rightarrow> d | _ \<Rightarrow> [])"
  by (cases e) (simp_all add: abort_def cleanup_fields unpipe_def pipeData_def pipeEnd_def json500_def Let_def)

lemma run_stderr:
  "stderr (run evs s) = stderr s @ concat (map (\<lambda>e. case e of FfStderrData d \<Rightarrow> d | _ \<Rightarrow> []) evs)"
  by (induction evs arbitrary: s) (simp_all add: run_Nil run_Cons step_stderr)

lemma step_headersSent_mono: "headersSent s \<Longrightarrow> headersSent (step e s)"
  by (cases e)
    (simp_all add: abort_def cleanup_fields unpipe_def pipeData_def pipeEnd_def json500_def Let_def)

lemma run_headersSent_mono: "headersSent s \<Longrightarrow> headersSent (run evs s)"
  by (induction evs arbitrary: s) (simp_all add: run_Nil run_Cons step_headersSent_mono)

lemma step_attached:
  assumes "\<not> isAbortSignal e" "piped s \<or> headersSent s"
  shows "piped (step e s) \<or> headersSent (step e s)"
  using assms
  by (cases e)
    (auto simp: cleanup_fields unpipe_def pipeData_def pipeEnd_def json500_def Let_def)

lemma output_end_sends_header:
  assumes "piped s \<or> headersSent s"
  shows "headersSent (step FfStdoutEnd s)"
  using assms by (auto simp: pipeEnd_def unpipe_def)

lemma headers_sent_after_output_end:
  assumes "FfStdoutEnd \<in> set evs" "\<forall>e\<in>set evs. \<not> isAbortSignal e" "piped s \<or> headersSent s"
  shows "headersSent (run evs s)"
  using assms
proof (induction evs arbitrary: s)
  case Nil
  then show ?case by simp
next
  case (Cons e evs)
  show ?case
  proof (cases "e = FfStdoutEnd")
    case True
    have "headersSent (step e s)"
      unfolding True by (rule output_end_sends_header) (rule Cons.prems(3))
    then show ?thesis unfolding run_Cons by (rule run_headersSent_mono)
  next
    case False
    have in_rest: "FfStdoutEnd \<in> set evs" using Cons.prems(1) False by auto
    have no_abort: "\<forall>e\<in>set evs. \<not> isAbortSignal e" using Cons.prems(2) by simp
    have "\<not> isAbortSignal e" using Cons.prems(2) by simp
    then have "piped (step e s) \<or> headersSent (step e s)"
      using Cons.prems(3) by (rule step_attached)
    then show ?thesis unfolding run_Cons by (rule Cons.IH[OF in_rest no_abort])
  qed
qed

text \<open>
  The renderer closes after its output has ended. Unless the client went away before,
  the header block has been sent by then, so the close handler writes nothing, whatever
  the exit code.
\<close>

lemma exit_after_output_end:
  assumes "FfStdoutEnd \<in> set evs" "\<forall>e\<in>set evs. \<not> isAbortSignal e"
  shows "wrote (step (FfClose code) (run evs (spawned f))) = wrote (run evs (spawned f))"
proof -
  have "headersSent (run evs (spawned f))"
    using assms by (rule headers_sent_after_output_end) (simp add: spawned_def)
  then show ?thesis by (simp add: cleanup_fields Let_def)
qed

text \<open>
  Claim C8. When the renderer exits with a code other than 0 or cannot be started, the
  uploaded file is deleted, and a 500 response with the renderer's error text (or the
  error) is sent if and only if no response bytes have been streamed yet. The handler of
  the renderer's close does test \<open>headersSent\<close> for this, but the close comes after the
  end of the renderer's output, on which the pipe has ended the response and so sent the
  header block with status 200. A renderer that writes only to its error stream and exits
  with code 1 is answered with status 200 and an empty body: no body byte was streamed,
  and no 500 is written. A renderer that cannot be started reports its error before, and
  that one is answered with the 500.
\<close>

theorem render_exit_failure_answers_200:
  "wrote (run [FfStderrData ''Invalid data found when processing input'', FfStdoutEnd,
               FfClose (Some 1)]
            (spawned (Some \<lparr>path = ''uploads/u1''\<rparr>)))
     = [Head 200]
   \<and> rmCalls (run [FfStderrData ''Invalid data found when processing input'', FfStdoutEnd,
                  FfClose (Some 1)]
               (spawned (Some \<lparr>path = ''uploads/u1''\<rparr>)))
     = [''uploads/u1'']
   \<and> wrote (run [FfError ''Error: spawn ffmpeg ENOENT'', FfStdoutEnd, FfClose (Some (- 2))]
               (spawned None))
     = [Head 500, ErrorJson ''FFmpeg spawn failed'' ''Error: spawn ffmpeg ENOENT'']"
  by (simp add: run_def spawned_def cleanup_def unpipe_def pipeEnd_def json500_def)

end
